theory Spec2Isabelle
  imports Complex_Main "HOL-Library.Multiset"
begin

section \<open>Word retrieval: data selection, pooling, margin scoring, layer accuracy\<close>

text \<open>
  A shallow embedding of \<^verbatim>\<open>wr_data.py\<close> and \<^verbatim>\<open>wr_hidden.py\<close>.

  Python exceptions are values of the type \<open>error\<close>; a function that can raise returns
  \<open>error + 'a\<close> with \<open>Inl\<close> for the exception.
\<close>

datatype error = AssertionError | ValueError | IndexError | RuntimeError

subsection \<open>wr\_data: aligned sampling and filtering of word pairs\<close>

text \<open>
  \<^verbatim>\<open>random.sample(range(n), k)\<close> is the standard library's; it is a parameter
  \<open>random_sample n k\<close> of the model. Its contract is that the draw has \<open>k\<close> pairwise
  distinct elements of \<open>range(n)\<close> (for \<open>0 \<le> k \<le> n\<close>); it raises \<open>ValueError\<close> for a
  negative \<open>k\<close>, which the model checks before the call.
\<close>

definition valid_draw :: "nat \<Rightarrow> nat \<Rightarrow> nat list \<Rightarrow> bool" where
  "valid_draw n k idx \<longleftrightarrow> length idx = k \<and> distinct idx \<and> list_all (\<lambda>i. i < n) idx"

definition sample_pairs ::
  "(nat \<Rightarrow> nat \<Rightarrow> nat list) \<Rightarrow> string list \<Rightarrow> string list \<Rightarrow> int
     \<Rightarrow> error + (string list \<times> string list)" where
  "sample_pairs random_sample base target sample_size =
     (if length base \<noteq> length target then Inl AssertionError
      else
        let sample_size' = min sample_size (int (length base)) in
        if sample_size' < 0 then Inl ValueError
        else
          let indices = random_sample (length base) (nat sample_size');
              sampled_base = map (\<lambda>i. base ! i) indices;
              sampled_target = map (\<lambda>i. target ! i) indices
          in Inr (sampled_base, sampled_target))"

text \<open>
  \<^verbatim>\<open>filter_pairs\<close>: the tokenizer is a parameter; only the number of tokens of a word
  (\<^verbatim>\<open>input_ids.shape[1]\<close>) is read. The loop runs over \<^verbatim>\<open>enumerate(base)\<close>; the
  read \<^verbatim>\<open>target[i]\<close> raises \<open>IndexError\<close> once \<open>i\<close> reaches the length of \<open>target\<close>.
\<close>

fun filter_pairs_loop ::
  "(string \<Rightarrow> nat) \<Rightarrow> string list \<Rightarrow> nat \<Rightarrow> string list
     \<Rightarrow> string list \<times> string list \<Rightarrow> error + (string list \<times> string list)" where
  "filter_pairs_loop tokenizer target i [] (filtered_base, filtered_target) =
     Inr (filtered_base, filtered_target)"
| "filter_pairs_loop tokenizer target i (base_word # rest) (filtered_base, filtered_target) =
     (if length target \<le> i then Inl IndexError
      else if tokenizer base_word = 1 \<and> tokenizer (target ! i) = 1
      then filter_pairs_loop tokenizer target (Suc i) rest
             (filtered_base @ [base_word], filtered_target @ [target ! i])
      else filter_pairs_loop tokenizer target (Suc i) rest (filtered_base, filtered_target))"

definition filter_pairs ::
  "string list \<Rightarrow> string list \<Rightarrow> (string \<Rightarrow> nat) \<Rightarrow> error + (string list \<times> string list)" where
  "filter_pairs base target tokenizer = filter_pairs_loop tokenizer target 0 base ([], [])"

text \<open>
  Two output sequences are an aligned selection of the two input sequences through the
  source indices \<open>idx\<close>: output position \<open>i\<close> of both comes from source position \<open>idx ! i\<close>.
\<close>

definition aligned_by :: "nat list \<Rightarrow> 'a list \<Rightarrow> 'a list \<Rightarrow> 'a list \<Rightarrow> 'a list \<Rightarrow> bool" where
  "aligned_by idx base target out_base out_target \<longleftrightarrow>
     length out_base = length idx \<and> length out_target = length idx \<and>
     list_all (\<lambda>i. i < length base \<and> i < length target) idx \<and>
     out_base = map (\<lambda>i. base ! i) idx \<and> out_target = map (\<lambda>i. target ! i) idx"

text \<open>The source indices that \<^verbatim>\<open>filter_pairs\<close> keeps, in increasing order.\<close>

definition kept :: "(string \<Rightarrow> nat) \<Rightarrow> string list \<Rightarrow> string list \<Rightarrow> nat list" where
  "kept tok base target =
     filter (\<lambda>i. tok (base ! i) = 1 \<and> tok (target ! i) = 1) [0..<length base]"

text \<open>A concrete draw, for evaluation: the last \<open>k\<close> indices of \<open>range(n)\<close>, downwards.\<close>

definition first_k :: "nat \<Rightarrow> nat \<Rightarrow> nat list" where
  "first_k n k = rev [n - k..<n]"

subsection \<open>Tensors\<close>

text \<open>
  A torch tensor is its shape together with its entries, as nested lists. Floating-point
  entries are modelled as real numbers, so rounding is not modelled. Where torch produces
  NaN or an infinity (a division by zero, the mean over no elements), the model has HOL's
  \<open>x / 0 = 0\<close>; the theorems stated for the claims exclude these cases by their
  hypotheses. Shape errors of the torch primitives (\<^verbatim>\<open>RuntimeError\<close>,
  \<^verbatim>\<open>IndexError\<close>) are results \<open>Inl\<close>.
\<close>

datatype 'a tensor2 = Tensor2 (size0: nat) (size1: nat) (rows: "'a list list")

datatype 'a tensor3 = Tensor3 (dim_b: nat) (dim_l: nat) (dim_h: nat) (seqs: "'a list list list")

definition wf2 :: "'a tensor2 \<Rightarrow> bool" where
  "wf2 t \<longleftrightarrow> length (rows t) = size0 t \<and> list_all (\<lambda>r. length r = size1 t) (rows t)"

definition wf3 :: "'a tensor3 \<Rightarrow> bool" where
  "wf3 t \<longleftrightarrow> length (seqs t) = dim_b t \<and>
     list_all (\<lambda>s. length s = dim_l t \<and> list_all (\<lambda>v. length v = dim_h t) s) (seqs t)"

definition has_shape2 :: "'a tensor2 \<Rightarrow> nat \<Rightarrow> nat \<Rightarrow> bool" where
  "has_shape2 t n m \<longleftrightarrow> size0 t = n \<and> size1 t = m \<and> wf2 t"

definition has_shape3 :: "'a tensor3 \<Rightarrow> nat \<Rightarrow> nat \<Rightarrow> nat \<Rightarrow> bool" where
  "has_shape3 t b l h \<longleftrightarrow> dim_b t = b \<and> dim_l t = l \<and> dim_h t = h \<and> wf3 t"

definition at2 :: "'a tensor2 \<Rightarrow> nat \<Rightarrow> nat \<Rightarrow> 'a" where
  "at2 t i j = rows t ! i ! j"

definition at3 :: "'a tensor3 \<Rightarrow> nat \<Rightarrow> nat \<Rightarrow> nat \<Rightarrow> 'a" where
  "at3 t s p j = seqs t ! s ! p ! j"

definition tabulate2 :: "nat \<Rightarrow> nat \<Rightarrow> (nat \<Rightarrow> nat \<Rightarrow> 'a) \<Rightarrow> 'a tensor2" where
  "tabulate2 n m f = Tensor2 n m (map (\<lambda>i. map (\<lambda>j. f i j) [0..<m]) [0..<n])"

definition tabulate3 :: "nat \<Rightarrow> nat \<Rightarrow> nat \<Rightarrow> (nat \<Rightarrow> nat \<Rightarrow> nat \<Rightarrow> 'a) \<Rightarrow> 'a tensor3" where
  "tabulate3 b l h f =
     Tensor3 b l h (map (\<lambda>s. map (\<lambda>p. map (\<lambda>j. f s p j) [0..<h]) [0..<l]) [0..<b])"

text \<open>Broadcasting of one dimension: equal sizes, or one of them is 1.\<close>

definition bcast_ok :: "nat \<Rightarrow> nat \<Rightarrow> bool" where
  "bcast_ok n m \<longleftrightarrow> n = m \<or> n = 1 \<or> m = 1"

definition bcast_dim :: "nat \<Rightarrow> nat \<Rightarrow> nat" where
  "bcast_dim n m = (if n = 1 then m else n)"

definition bcast_ix :: "nat \<Rightarrow> nat \<Rightarrow> nat" where
  "bcast_ix n i = (if n = 1 then 0 else i)"

text \<open>An elementwise binary operation on two 2-D tensors, with broadcasting.\<close>

definition bcast2 ::
  "('a \<Rightarrow> 'b \<Rightarrow> 'c) \<Rightarrow> 'a tensor2 \<Rightarrow> 'b tensor2 \<Rightarrow> error + 'c tensor2" where
  "bcast2 f x y =
     (if bcast_ok (size0 x) (size0 y) \<and> bcast_ok (size1 x) (size1 y)
      then Inr (tabulate2 (bcast_dim (size0 x) (size0 y)) (bcast_dim (size1 x) (size1 y))
                  (\<lambda>i j. f (at2 x (bcast_ix (size0 x) i) (bcast_ix (size1 x) j))
                           (at2 y (bcast_ix (size0 y) i) (bcast_ix (size1 y) j))))
      else Inl RuntimeError)"

definition bcast3 ::
  "('a \<Rightarrow> 'b \<Rightarrow> 'c) \<Rightarrow> 'a tensor3 \<Rightarrow> 'b tensor3 \<Rightarrow> error + 'c tensor3" where
  "bcast3 f x y =
     (if bcast_ok (dim_b x) (dim_b y) \<and> bcast_ok (dim_l x) (dim_l y) \<and> bcast_ok (dim_h x) (dim_h y)
      then Inr (tabulate3 (bcast_dim (dim_b x) (dim_b y)) (bcast_dim (dim_l x) (dim_l y))
                  (bcast_dim (dim_h x) (dim_h y))
                  (\<lambda>s p j. f (at3 x (bcast_ix (dim_b x) s) (bcast_ix (dim_l x) p) (bcast_ix (dim_h x) j))
                             (at3 y (bcast_ix (dim_b y) s) (bcast_ix (dim_l y) p) (bcast_ix (dim_h y) j))))
      else Inl RuntimeError)"

text \<open>An operation with a Python scalar, e.g. \<^verbatim>\<open>t * 0.5\<close> or \<^verbatim>\<open>t + eps\<close>.\<close>

definition map_tensor2 :: "('a \<Rightarrow> 'b) \<Rightarrow> 'a tensor2 \<Rightarrow> 'b tensor2" where
  "map_tensor2 f t = Tensor2 (size0 t) (size1 t) (map (map f) (rows t))"

text \<open>\<^verbatim>\<open>t.T\<close> and \<^verbatim>\<open>x @ y\<close> on 2-D tensors.\<close>

definition transpose_T :: "'a tensor2 \<Rightarrow> 'a tensor2" where
  "transpose_T t = tabulate2 (size1 t) (size0 t) (\<lambda>i j. at2 t j i)"

definition matmul :: "real tensor2 \<Rightarrow> real tensor2 \<Rightarrow> error + real tensor2" where
  "matmul x y =
     (if size1 x \<noteq> size0 y then Inl RuntimeError
      else Inr (tabulate2 (size0 x) (size1 y)
                  (\<lambda>i j. sum_list (map (\<lambda>c. at2 x i c * at2 y c j) [0..<size1 x]))))"

text \<open>\<^verbatim>\<open>torch.linalg.norm(t, dim=1, keepdim=True)\<close>: the Euclidean norm of each row.\<close>

definition norm_dim1_keepdim :: "real tensor2 \<Rightarrow> real tensor2" where
  "norm_dim1_keepdim t =
     Tensor2 (size0 t) 1 (map (\<lambda>r. [sqrt (sum_list (map (\<lambda>x. x * x) r))]) (rows t))"

text \<open>
  \<^verbatim>\<open>torch.topk(t, k, dim).values\<close>: the \<open>k\<close> largest entries along the dimension, in
  descending order; it raises when \<open>k\<close> is negative or larger than the size along the
  dimension.
\<close>

definition topk_list :: "nat \<Rightarrow> real list \<Rightarrow> real list" where
  "topk_list k xs = take k (rev (sort xs))"

definition topk_values_dim1 :: "real tensor2 \<Rightarrow> int \<Rightarrow> error + real tensor2" where
  "topk_values_dim1 t k =
     (if k < 0 \<or> int (size1 t) < k then Inl RuntimeError
      else Inr (Tensor2 (size0 t) (nat k) (map (topk_list (nat k)) (rows t))))"

definition topk_values_dim0 :: "real tensor2 \<Rightarrow> int \<Rightarrow> error + real tensor2" where
  "topk_values_dim0 t k =
     (if k < 0 \<or> int (size0 t) < k then Inl RuntimeError
      else Inr (transpose_T (Tensor2 (size1 t) (nat k) (map (topk_list (nat k)) (rows (transpose_T t))))))"

text \<open>\<^verbatim>\<open>t.mean(dim=1, keepdim=True)\<close> and \<^verbatim>\<open>t.mean(dim=0, keepdim=True)\<close>.\<close>

definition mean_dim1_keepdim :: "real tensor2 \<Rightarrow> real tensor2" where
  "mean_dim1_keepdim t =
     Tensor2 (size0 t) 1 (map (\<lambda>r. [sum_list r / real (size1 t)]) (rows t))"

definition mean_dim0_keepdim :: "real tensor2 \<Rightarrow> real tensor2" where
  "mean_dim0_keepdim t =
     Tensor2 1 (size1 t)
       [map (\<lambda>j. sum_list (map (\<lambda>i. at2 t i j) [0..<size0 t]) / real (size0 t)) [0..<size1 t]]"

subsection \<open>wr\_hidden: cosine similarity and margin-based scoring\<close>

definition cosine_similarity :: "real tensor2 \<Rightarrow> real tensor2 \<Rightarrow> error + real tensor2" where
  "cosine_similarity first second =
     (case bcast2 (/) first (norm_dim1_keepdim first) of
        Inl e \<Rightarrow> Inl e
      | Inr first_norm \<Rightarrow>
          (case bcast2 (/) second (norm_dim1_keepdim second) of
             Inl e \<Rightarrow> Inl e
           | Inr second_norm \<Rightarrow> matmul first_norm (transpose_T second_norm)))"

definition margin_based_scoring ::
  "real tensor2 \<Rightarrow> real tensor2 \<Rightarrow> int \<Rightarrow> string \<Rightarrow> real \<Rightarrow> error + real tensor2" where
  "margin_based_scoring first second k variant eps =
     (case cosine_similarity first second of
        Inl e \<Rightarrow> Inl e
      | Inr a \<Rightarrow>
          if variant = ''absolute'' then Inr a
          else
            (case topk_values_dim1 a (min k (int (size1 a))) of
               Inl e \<Rightarrow> Inl e
             | Inr nn_k_row \<Rightarrow>
                 (case topk_values_dim0 a (min k (int (size0 a))) of
                    Inl e \<Rightarrow> Inl e
                  | Inr nn_k_col \<Rightarrow>
                      let row_mean = mean_dim1_keepdim nn_k_row;
                          col_mean = mean_dim0_keepdim nn_k_col
                      in (case bcast2 (+) row_mean col_mean of
                            Inl e \<Rightarrow> Inl e
                          | Inr s \<Rightarrow>
                              let b = map_tensor2 (\<lambda>x. x + eps) (map_tensor2 (\<lambda>x. x * 0.5) s)
                              in if variant = ''distance'' then bcast2 (-) a b
                                 else bcast2 (/) a b))))"

subsection \<open>wr\_hidden: layer accuracy\<close>

text \<open>
  \<^verbatim>\<open>score.argmax(dim=1)\<close>: for each row the index of its largest entry, the first one
  when the largest value occurs several times; it raises \<open>IndexError\<close> when the reduced
  dimension has size 0.
\<close>

fun argmax_scan :: "real list \<Rightarrow> nat \<Rightarrow> real \<Rightarrow> nat \<Rightarrow> nat" where
  "argmax_scan [] i best best_i = best_i"
| "argmax_scan (x # xs) i best best_i =
     (if best < x then argmax_scan xs (Suc i) x i else argmax_scan xs (Suc i) best best_i)"

fun argmax_list :: "real list \<Rightarrow> nat" where
  "argmax_list [] = 0"
| "argmax_list (x # xs) = argmax_scan xs 1 x 0"

definition argmax_dim1 :: "real tensor2 \<Rightarrow> error + nat list" where
  "argmax_dim1 t = (if size1 t = 0 then Inl IndexError else Inr (map argmax_list (rows t)))"

text \<open>
  \<^verbatim>\<open>(preds == torch.arange(n)).float().mean().item()\<close>; \<open>preds\<close> has \<open>n = score.size(0)\<close>
  entries.
\<close>

definition layer_accuracy :: "real tensor2 \<Rightarrow> error + real" where
  "layer_accuracy score =
     (case argmax_dim1 score of
        Inl e \<Rightarrow> Inl e
      | Inr preds \<Rightarrow>
          let hits = map2 (\<lambda>p i. if p = i then (1::real) else 0) preds [0..<size0 score]
          in Inr (sum_list hits / real (length hits)))"

text \<open>
  Index \<open>p\<close> is the argmax of the row \<open>r\<close> with the first-occurrence tie-break: \<open>r ! p\<close> is
  a largest entry and every entry before position \<open>p\<close> is strictly smaller.
\<close>

definition is_first_argmax :: "real list \<Rightarrow> nat \<Rightarrow> bool" where
  "is_first_argmax r p \<longleftrightarrow>
     p < length r \<and> list_all (\<lambda>x. x \<le> r ! p) r \<and> list_all (\<lambda>x. x < r ! p) (take p r)"

subsection \<open>wr\_hidden: pooling functions\<close>

text \<open>
  \<^verbatim>\<open>t.unsqueeze(-1)\<close> on a 2-D tensor, \<^verbatim>\<open>t.to(dtype)\<close> from an integer tensor to
  a floating one, and \<^verbatim>\<open>t.sum(dim=1)\<close> on a 3-D tensor.
\<close>

definition unsqueeze_last :: "'a tensor2 \<Rightarrow> 'a tensor3" where
  "unsqueeze_last t = Tensor3 (size0 t) (size1 t) 1 (map (map (\<lambda>x. [x])) (rows t))"

definition map_tensor3 :: "('a \<Rightarrow> 'b) \<Rightarrow> 'a tensor3 \<Rightarrow> 'b tensor3" where
  "map_tensor3 f t = Tensor3 (dim_b t) (dim_l t) (dim_h t) (map (map (map f)) (seqs t))"

definition sum_dim1 :: "real tensor3 \<Rightarrow> real tensor2" where
  "sum_dim1 t =
     tabulate2 (dim_b t) (dim_h t) (\<lambda>s j. sum_list (map (\<lambda>p. at3 t s p j) [0..<dim_l t]))"

definition mean_hidden_state :: "real tensor3 \<Rightarrow> int tensor2 \<Rightarrow> error + real tensor2" where
  "mean_hidden_state hidden_states attention_mask =
     (let mask = map_tensor3 real_of_int (unsqueeze_last attention_mask)
      in case bcast3 (*) hidden_states mask of
           Inl e \<Rightarrow> Inl e
         | Inr masked \<Rightarrow>
             let summed = sum_dim1 masked;
                 count = sum_dim1 mask
             in bcast2 (/) summed count)"

text \<open>
  \<^verbatim>\<open>hidden_states[batch_range, last_token_index]\<close>: indexing the first two dimensions
  by two 1-D index tensors. The two index tensors are broadcast against each other; an
  index \<open>i\<close> of a dimension of size \<open>n\<close> must satisfy \<open>-n \<le> i < n\<close>, a negative one counts
  from the end; otherwise torch raises \<open>IndexError\<close>.
\<close>

definition index_ok :: "nat \<Rightarrow> int \<Rightarrow> bool" where
  "index_ok n i \<longleftrightarrow> - int n \<le> i \<and> i < int n"

definition wrap_index :: "nat \<Rightarrow> int \<Rightarrow> nat" where
  "wrap_index n i = nat (if i < 0 then i + int n else i)"

definition index_pairs :: "'a tensor3 \<Rightarrow> int list \<Rightarrow> int list \<Rightarrow> error + 'a tensor2" where
  "index_pairs t is js =
     (if \<not> bcast_ok (length is) (length js) then Inl IndexError
      else
        let n = bcast_dim (length is) (length js);
            i_of = (\<lambda>q. is ! bcast_ix (length is) q);
            j_of = (\<lambda>q. js ! bcast_ix (length js) q)
        in if list_all (\<lambda>q. index_ok (dim_b t) (i_of q) \<and> index_ok (dim_l t) (j_of q)) [0..<n]
           then Inr (Tensor2 n (dim_h t)
                  (map (\<lambda>q. seqs t ! wrap_index (dim_b t) (i_of q) ! wrap_index (dim_l t) (j_of q))
                     [0..<n]))
           else Inl IndexError)"

definition last_token_hidden_state :: "real tensor3 \<Rightarrow> int tensor2 \<Rightarrow> error + real tensor2" where
  "last_token_hidden_state hidden_states attention_mask =
     (let last_token_index =
            map (\<lambda>r. int (length (filter (\<lambda>m. m \<noteq> 0) r)) - 1) (rows attention_mask);
          batch_range = map int [0..<dim_b hidden_states]
      in index_pairs hidden_states batch_range last_token_index)"

text \<open>
  The pooling contract read from the specification, for one sequence of \<open>h\<close>-dimensional
  token vectors \<open>vs\<close> and its mask row \<open>m\<close>: the arithmetic mean of a list of vectors, the
  positions where the mask is 1, and the mean over those positions.
\<close>

definition vec_average :: "nat \<Rightarrow> real list list \<Rightarrow> real list" where
  "vec_average h vs = map (\<lambda>j. sum_list (map (\<lambda>v. v ! j) vs) / real (length vs)) [0..<h]"

definition unmasked_positions :: "int list \<Rightarrow> nat list" where
  "unmasked_positions m = filter (\<lambda>p. m ! p = 1) [0..<length m]"

definition spec_mean_pool :: "nat \<Rightarrow> real list list \<Rightarrow> int list \<Rightarrow> real list" where
  "spec_mean_pool h vs m = vec_average h (map (\<lambda>p. vs ! p) (unmasked_positions m))"

definition count_of_ones :: "int list \<Rightarrow> nat" where
  "count_of_ones m = length (filter (\<lambda>x. x = 1) m)"

text \<open>A mask row holds only 0 and 1; a right-padded one has all its ones first.\<close>

definition binary_row :: "int list \<Rightarrow> bool" where
  "binary_row m \<longleftrightarrow> list_all (\<lambda>x. x = 0 \<or> x = 1) m"

definition right_padded :: "int list \<Rightarrow> bool" where
  "right_padded m \<longleftrightarrow>
     m = replicate (count_of_ones m) 1 @ replicate (length m - count_of_ones m) 0"

text \<open>
  The scoring contract read from the specification. Cosine similarity of two rows: each
  is divided by its Euclidean norm, then the inner product is taken. The baseline of
  entry \<open>(i, j)\<close> of a similarity matrix \<open>a\<close> of shape \<open>(n1, n2)\<close>: the mean of the top
  \<open>min k n2\<close> values of row \<open>i\<close> plus the mean of the top \<open>min k n1\<close> values of column
  \<open>j\<close>, divided by 2, plus \<open>eps\<close>.
\<close>

definition row_norm :: "real list \<Rightarrow> real" where
  "row_norm r = sqrt (sum_list (map (\<lambda>x. x * x) r))"

definition l2_normalize :: "real list \<Rightarrow> real list" where
  "l2_normalize r = map (\<lambda>x. x / row_norm r) r"

definition dot :: "real list \<Rightarrow> real list \<Rightarrow> real" where
  "dot u v = sum_list (map2 (*) u v)"

definition cos_sim :: "real list \<Rightarrow> real list \<Rightarrow> real" where
  "cos_sim u v = dot (l2_normalize u) (l2_normalize v)"

definition column :: "'a tensor2 \<Rightarrow> nat \<Rightarrow> 'a list" where
  "column t j = map (\<lambda>r. r ! j) (rows t)"

definition mean_list :: "real list \<Rightarrow> real" where
  "mean_list xs = sum_list xs / real (length xs)"

definition spec_baseline :: "real tensor2 \<Rightarrow> nat \<Rightarrow> real \<Rightarrow> nat \<Rightarrow> nat \<Rightarrow> real" where
  "spec_baseline a k eps i j =
     (mean_list (topk_list (min k (size1 a)) (rows a ! i)) +
      mean_list (topk_list (min k (size0 a)) (column a j))) / 2 + eps"

definition spec_margin_score ::
  "real tensor2 \<Rightarrow> nat \<Rightarrow> string \<Rightarrow> real \<Rightarrow> nat \<Rightarrow> nat \<Rightarrow> real" where
  "spec_margin_score a k variant eps i j =
     (if variant = ''distance'' then at2 a i j - spec_baseline a k eps i j
      else at2 a i j / spec_baseline a k eps i j)"

definition cosine_matrix :: "real tensor2 \<Rightarrow> real tensor2 \<Rightarrow> real tensor2" where
  "cosine_matrix first second =
     tabulate2 (size0 first) (size0 second) (\<lambda>i j. cos_sim (rows first ! i) (rows second ! j))"

text \<open>
  Where the model is exact for the division variant: no entry of the baseline is zero
  (torch divides by the baseline and yields an infinity or NaN at a zero).
\<close>

definition baseline_nonzero :: "real tensor2 \<Rightarrow> nat \<Rightarrow> real \<Rightarrow> bool" where
  "baseline_nonzero a k eps \<longleftrightarrow>
     list_all (\<lambda>i. list_all (\<lambda>j. spec_baseline a k eps i j \<noteq> 0) [0..<size1 a]) [0..<size0 a]"

text \<open>No zero-norm row; no two equal entries in one row of a matrix.\<close>

definition no_zero_rows :: "real tensor2 \<Rightarrow> bool" where
  "no_zero_rows t \<longleftrightarrow> list_all (\<lambda>r. row_norm r \<noteq> 0) (rows t)"

definition no_ties :: "real tensor2 \<Rightarrow> bool" where
  "no_ties t \<longleftrightarrow> list_all distinct (rows t)"

text \<open>
  Three unit vectors of the plane, pairwise different, for evaluation: the first two are
  close to each other, the third is far from both.
\<close>

definition three_words :: "real tensor2" where
  "three_words = Tensor2 3 2 [[1, 0], [40 / 41, 9 / 41], [0, - 1]]"


subsection \<open>wr\_hidden: batched layer representations\<close>

text \<open>
  The tokenizer and the model are objects of the transformers library and are parameters
  of \<^verbatim>\<open>layer_representation\<close>. The call
  \<^verbatim>\<open>tokenizer(batch, return_tensors="pt", padding=True)\<close> yields the grid of token ids
  and the attention mask, both of shape \<open>(b, l)\<close>; the call
  \<^verbatim>\<open>model(**tokens, output_hidden_states=True, use_cache=False).hidden_states\<close> yields
  one tensor of shape \<open>(b, l, h)\<close> per layer. Moving tensors to the device and releasing
  them have no effect on values and are not modelled.
\<close>

type_synonym tokenizer = "string list \<Rightarrow> nat tensor2 \<times> int tensor2"

type_synonym model = "nat tensor2 \<Rightarrow> int tensor2 \<Rightarrow> real tensor3 list"

type_synonym pooling = "real tensor3 \<Rightarrow> int tensor2 \<Rightarrow> error + real tensor2"

text \<open>
  \<^verbatim>\<open>range(0, n, step)\<close>: it raises \<open>ValueError\<close> for a zero step and is empty for a
  negative one.
\<close>

definition range_step :: "nat \<Rightarrow> int \<Rightarrow> error + nat list" where
  "range_step n step =
     (if step = 0 then Inl ValueError
      else if step < 0 then Inr []
      else Inr (map (\<lambda>q. q * nat step) [0..<(n + nat step - 1) div nat step]))"

text \<open>The slice \<^verbatim>\<open>xs[lo:hi]\<close> for \<open>0 \<le> lo \<le> hi\<close>.\<close>

definition slice :: "'a list \<Rightarrow> nat \<Rightarrow> nat \<Rightarrow> 'a list" where
  "slice xs lo hi = take (hi - lo) (drop lo xs)"

text \<open>
  \<^verbatim>\<open>temp.setdefault(i, []).append(x)\<close> on a dictionary, kept as an association list in
  insertion order.
\<close>

fun setdefault_append :: "(nat \<times> 'a list) list \<Rightarrow> nat \<Rightarrow> 'a \<Rightarrow> (nat \<times> 'a list) list" where
  "setdefault_append [] i x = [(i, [x])]"
| "setdefault_append ((j, xs) # temp) i x =
     (if j = i then (j, xs @ [x]) # temp else (j, xs) # setdefault_append temp i x)"

text \<open>
  \<^verbatim>\<open>torch.cat(ts, dim=0)\<close> of 2-D tensors: it raises for an empty list and when the
  tensors differ in their second dimension.
\<close>

definition cat_dim0 :: "'a tensor2 list \<Rightarrow> error + 'a tensor2" where
  "cat_dim0 ts =
     (if ts = [] then Inl RuntimeError
      else if list_all (\<lambda>t. size1 t = size1 (hd ts)) ts
      then Inr (Tensor2 (sum_list (map size0 ts)) (size1 (hd ts)) (concat (map rows ts)))
      else Inl RuntimeError)"

text \<open>The inner loop over \<^verbatim>\<open>enumerate(hidden_states)\<close>.\<close>

fun pool_layers ::
  "pooling \<Rightarrow> int tensor2 \<Rightarrow> (nat \<times> real tensor2 list) list \<Rightarrow> (nat \<times> real tensor3) list
     \<Rightarrow> error + (nat \<times> real tensor2 list) list" where
  "pool_layers hidden_state_fn attention_mask temp [] = Inr temp"
| "pool_layers hidden_state_fn attention_mask temp ((i, hs) # rest) =
     (case hidden_state_fn hs attention_mask of
        Inl e \<Rightarrow> Inl e
      | Inr hidden_state \<Rightarrow>
          pool_layers hidden_state_fn attention_mask (setdefault_append temp i hidden_state) rest)"

text \<open>The outer loop over the batch starts.\<close>

fun batch_loop ::
  "model \<Rightarrow> tokenizer \<Rightarrow> string list \<Rightarrow> int \<Rightarrow> pooling \<Rightarrow> (nat \<times> real tensor2 list) list
     \<Rightarrow> nat list \<Rightarrow> error + (nat \<times> real tensor2 list) list" where
  "batch_loop model tokenizer sentences batch_size hidden_state_fn temp [] = Inr temp"
| "batch_loop model tokenizer sentences batch_size hidden_state_fn temp (start # starts) =
     (let batch = slice sentences start (start + nat batch_size);
          (input_ids, attention_mask) = tokenizer batch;
          hidden_states = model input_ids attention_mask
      in case pool_layers hidden_state_fn attention_mask temp (enumerate 0 hidden_states) of
           Inl e \<Rightarrow> Inl e
         | Inr temp' \<Rightarrow>
             batch_loop model tokenizer sentences batch_size hidden_state_fn temp' starts)"

text \<open>The final dictionary \<^verbatim>\<open>{i: torch.cat(temp[i], dim=0) for i in temp}\<close>.\<close>

fun cat_all :: "(nat \<times> real tensor2 list) list \<Rightarrow> error + (nat \<times> real tensor2) list" where
  "cat_all [] = Inr []"
| "cat_all ((i, ts) # temp) =
     (case cat_dim0 ts of
        Inl e \<Rightarrow> Inl e
      | Inr t \<Rightarrow> (case cat_all temp of Inl e \<Rightarrow> Inl e | Inr rest \<Rightarrow> Inr ((i, t) # rest)))"

definition layer_representation ::
  "model \<Rightarrow> tokenizer \<Rightarrow> string list \<Rightarrow> int \<Rightarrow> pooling \<Rightarrow> error + (nat \<times> real tensor2) list" where
  "layer_representation model tokenizer sentences batch_size hidden_state_fn =
     (case range_step (length sentences) batch_size of
        Inl e \<Rightarrow> Inl e
      | Inr starts \<Rightarrow>
          (case batch_loop model tokenizer sentences batch_size hidden_state_fn [] starts of
             Inl e \<Rightarrow> Inl e
           | Inr temp \<Rightarrow> cat_all temp))"

text \<open>
  Modelled from the spec: the contract of the tokenizer and the model, which are library
  objects and not part of the source. A sentence
  \<open>s\<close> has the token ids \<open>tok s\<close>, at least one. The tokenizer pads every sentence of a
  batch on the right, with the id \<open>pad\<close> and mask 0, to the longest sentence of the
  batch. The model returns \<open>nl\<close> layers of shape \<open>(b, l, h)\<close>, and the hidden vectors of a
  sentence at its own (unmasked) positions are those it has when the sentence is
  processed alone, in a batch of one without padding: they depend neither on the other
  sentences of the batch nor on the padding.
\<close>

definition pad_batch :: "(string \<Rightarrow> nat list) \<Rightarrow> nat \<Rightarrow> string list \<Rightarrow> nat tensor2 \<times> int tensor2" where
  "pad_batch tok pad batch =
     (let l = fold max (map (\<lambda>s. length (tok s)) batch) 0
      in (Tensor2 (length batch) l
            (map (\<lambda>s. tok s @ replicate (l - length (tok s)) pad) batch),
          Tensor2 (length batch) l
            (map (\<lambda>s. replicate (length (tok s)) 1 @ replicate (l - length (tok s)) 0) batch)))"

definition alone_hidden :: "model \<Rightarrow> (string \<Rightarrow> nat list) \<Rightarrow> nat \<Rightarrow> string \<Rightarrow> real list list" where
  "alone_hidden model tok i s =
     seqs (model (Tensor2 1 (length (tok s)) [tok s])
                 (Tensor2 1 (length (tok s)) [replicate (length (tok s)) 1]) ! i) ! 0"

definition batch_contract ::
  "model \<Rightarrow> tokenizer \<Rightarrow> (string \<Rightarrow> nat list) \<Rightarrow> nat \<Rightarrow> nat \<Rightarrow> nat \<Rightarrow> string list \<Rightarrow> bool" where
  "batch_contract model tokenizer tok pad nl h batch \<longleftrightarrow>
     tokenizer batch = pad_batch tok pad batch \<and>
     list_all (\<lambda>s. tok s \<noteq> []) batch \<and>
     (let (input_ids, attention_mask) = tokenizer batch;
          hidden_states = model input_ids attention_mask
      in length hidden_states = nl \<and>
         list_all (\<lambda>i.
           has_shape3 (hidden_states ! i) (length batch) (size1 attention_mask) h \<and>
           list_all (\<lambda>r.
             list_all (\<lambda>p. seqs (hidden_states ! i) ! r ! p
                            = alone_hidden model tok i (batch ! r) ! p)
               [0..<length (tok (batch ! r))])
             [0..<length batch])
           [0..<nl])"

text \<open>The contract holds for every non-empty contiguous run of the sentences.\<close>

definition extraction_contract ::
  "model \<Rightarrow> tokenizer \<Rightarrow> (string \<Rightarrow> nat list) \<Rightarrow> nat \<Rightarrow> nat \<Rightarrow> nat \<Rightarrow> string list \<Rightarrow> bool" where
  "extraction_contract model tokenizer tok pad nl h sentences \<longleftrightarrow>
     list_all (\<lambda>lo.
       list_all (\<lambda>hi. batch_contract model tokenizer tok pad nl h (slice sentences lo hi))
         [Suc lo..<Suc (length sentences)])
       [0..<length sentences]"

text \<open>
  A small tokenizer and model for evaluation: the token ids of a sentence are the codes
  of its characters; layer 0 holds the token id and layer 1 the sum of the ids up to the
  position (a causal layer), both with hidden dimension 1.
\<close>

definition char_tok :: "string \<Rightarrow> nat list" where
  "char_tok s = map of_char s"

definition toy_model :: model where
  "toy_model input_ids attention_mask =
     [Tensor3 (size0 input_ids) (size1 input_ids) 1
        (map (map (\<lambda>x. [real x])) (rows input_ids)),
      Tensor3 (size0 input_ids) (size1 input_ids) 1
        (map (\<lambda>r. map (\<lambda>p. [real (sum_list (take (Suc p) r))]) [0..<size1 input_ids])
           (rows input_ids))]"


section \<open>Properties of the data selection\<close>

lemma filter_pairs_loop_eq:
  "i + length rest \<le> length target \<Longrightarrow>
   filter_pairs_loop tok target i rest (fb, ft) =
     Inr (fb @ map fst (filter (\<lambda>(b, t). tok b = 1 \<and> tok t = 1) (zip rest (drop i target))),
          ft @ map snd (filter (\<lambda>(b, t). tok b = 1 \<and> tok t = 1) (zip rest (drop i target))))"
proof (induction rest arbitrary: i fb ft)
  case Nil
  then show ?case by simp
next
  case (Cons w rest)
  then have lt: "i < length target" by simp
  then have d: "drop i target = target ! i # drop (Suc i) target"
    by (simp add: Cons_nth_drop_Suc)
  from Cons.prems have "Suc i + length rest \<le> length target" by simp
  from Cons.IH [OF this] lt d show ?case by simp
qed

lemma zip_as_index_map:
  "length xs = length ys \<Longrightarrow> zip xs ys = map (\<lambda>i. (xs ! i, ys ! i)) [0..<length xs]"
  by (rule nth_equalityI) simp_all

lemma filter_pairs_eq:
  assumes "length base = length target"
  shows "filter_pairs base target tok =
     Inr (map (\<lambda>i. base ! i) (kept tok base target), map (\<lambda>i. target ! i) (kept tok base target))"
  using assms
  by (simp add: kept_def filter_pairs_def filter_pairs_loop_eq zip_as_index_map filter_map comp_def)

lemma kept_sorted: "sorted_wrt (<) (kept tok base target)"
  by (simp add: kept_def sorted_wrt_filter)

lemma kept_bound: "list_all (\<lambda>i. i < length base) (kept tok base target)"
  by (simp add: kept_def list_all_iff)

text \<open>
  Claim C8. For base and target sequences of equal length, \<^verbatim>\<open>sample_pairs\<close> with a
  sample size \<open>0 \<le> m \<le> length\<close> and \<^verbatim>\<open>filter_pairs\<close> both return, and each returns
  two sequences of the same length that are read from the two inputs through one list of
  source indices: output position \<open>i\<close> of both sequences comes from the same source index.
  The sample has \<open>m\<close> distinct source indices; the filter keeps the source order.
\<close>

theorem sample_and_filter_preserve_alignment:
  assumes len: "length base = length target"
    and m: "0 \<le> m" "m \<le> int (length base)"
    and draw: "valid_draw (length base) (nat m) (random_sample (length base) (nat m))"
  shows "(\<exists>idx out_base out_target.
            sample_pairs random_sample base target m = Inr (out_base, out_target) \<and>
            aligned_by idx base target out_base out_target \<and> length idx = nat m \<and> distinct idx)
       \<and> (\<exists>idx out_base out_target.
            filter_pairs base target tokenizer = Inr (out_base, out_target) \<and>
            aligned_by idx base target out_base out_target \<and> sorted_wrt (<) idx)"
proof (rule conjI)
  let ?idx = "random_sample (length base) (nat m)"
  have sp: "sample_pairs random_sample base target m =
      Inr (map (\<lambda>i. base ! i) ?idx, map (\<lambda>i. target ! i) ?idx)"
    using len m by (simp add: sample_pairs_def min_def Let_def)
  have "aligned_by ?idx base target (map (\<lambda>i. base ! i) ?idx) (map (\<lambda>i. target ! i) ?idx)"
    using draw len by (simp add: aligned_by_def valid_draw_def)
  with sp draw show "\<exists>idx out_base out_target.
            sample_pairs random_sample base target m = Inr (out_base, out_target) \<and>
            aligned_by idx base target out_base out_target \<and> length idx = nat m \<and> distinct idx"
    unfolding valid_draw_def by blast
next
  let ?idx = "kept tokenizer base target"
  have "aligned_by ?idx base target (map (\<lambda>i. base ! i) ?idx) (map (\<lambda>i. target ! i) ?idx)"
    using kept_bound [of base tokenizer target] len by (simp add: aligned_by_def)
  with filter_pairs_eq [OF len, of tokenizer] kept_sorted [of tokenizer base target]
  show "\<exists>idx out_base out_target.
            filter_pairs base target tokenizer = Inr (out_base, out_target) \<and>
            aligned_by idx base target out_base out_target \<and> sorted_wrt (<) idx"
    by blast
qed

theorem sample_and_filter_preserve_alignment_witness:
  "(\<exists>idx out_base out_target.
      sample_pairs first_k [''dog'', ''cat'', ''house''] [''madra'', ''cat'', ''teach''] 2
        = Inr (out_base, out_target) \<and>
      aligned_by idx [''dog'', ''cat'', ''house''] [''madra'', ''cat'', ''teach'']
        out_base out_target \<and> length idx = nat 2 \<and> distinct idx)
   \<and> (\<exists>idx out_base out_target.
      filter_pairs [''dog'', ''cat'', ''house''] [''madra'', ''cat'', ''teach''] (\<lambda>w. length w - 2)
        = Inr (out_base, out_target) \<and>
      aligned_by idx [''dog'', ''cat'', ''house''] [''madra'', ''cat'', ''teach'']
        out_base out_target \<and> sorted_wrt (<) idx)"
proof -
  have d: "valid_draw (length [''dog'', ''cat'', ''house'']) (nat 2)
             (first_k (length [''dog'', ''cat'', ''house'']) (nat 2))"
    by (simp add: valid_draw_def first_k_def upt_rec)
  show ?thesis
    using sample_and_filter_preserve_alignment
      [of "[''dog'', ''cat'', ''house'']" "[''madra'', ''cat'', ''teach'']" 2 first_k, OF _ _ _ d]
    by simp
qed

text \<open>
  \<^verbatim>\<open>sample_pairs\<close> checks the lengths first and raises on unequal ones.
\<close>

lemma sample_pairs_unequal:
  "length base \<noteq> length target \<Longrightarrow> sample_pairs random_sample base target m = Inl AssertionError"
  by (simp add: sample_pairs_def)

text \<open>
  Claim C9. Sequences of unequal length must be rejected by both operations.
  \<^verbatim>\<open>filter_pairs\<close> has no such check: with a target longer than the base it returns
  a result, the surplus target words dropped silently. Here every word is one token.
\<close>

theorem filter_pairs_truncates_longer_target:
  "filter_pairs [''a''] [''a'', ''b''] length = Inr ([''a''], [''a''])"
  by (simp add: filter_pairs_def)

lemma full_draw_set:
  assumes "valid_draw n n idx"
  shows "mset idx = mset [0..<n]"
proof -
  from assms have l: "length idx = n" and d: "distinct idx" and b: "set idx \<subseteq> {0..<n}"
    by (auto simp: valid_draw_def list_all_iff)
  have "card (set idx) = n" using l d by (simp add: distinct_card)
  with b have "set idx = {0..<n}" by (simp add: card_subset_eq)
  then have "set idx = set [0..<n]" by simp
  with d show ?thesis by (metis set_eq_iff_mset_eq_distinct distinct_upt)
qed

lemma mset_map_nth_upt: "mset (map (\<lambda>i. xs ! i) [0..<length xs]) = mset xs"
  by (simp add: map_nth)

text \<open>
  Claim C10. For lists of equal length and a sample size above that length,
  \<^verbatim>\<open>sample_pairs\<close> does not raise: the sample size is clamped to the length and both
  full lists are returned, reordered by the same permutation.
\<close>

theorem sample_pairs_clamps_oversized_sample:
  assumes len: "length base = length target"
    and big: "int (length base) < sample_size"
    and draw: "valid_draw (length base) (length base) (random_sample (length base) (length base))"
  shows "\<exists>out_base out_target.
           sample_pairs random_sample base target sample_size = Inr (out_base, out_target) \<and>
           length out_base = length base \<and> length out_target = length target \<and>
           mset out_base = mset base \<and> mset out_target = mset target \<and>
           mset (zip out_base out_target) = mset (zip base target)"
proof -
  let ?idx = "random_sample (length base) (length base)"
  have sp: "sample_pairs random_sample base target sample_size =
      Inr (map (\<lambda>i. base ! i) ?idx, map (\<lambda>i. target ! i) ?idx)"
    using len big by (simp add: sample_pairs_def min_def Let_def)
  have ms: "mset ?idx = mset [0..<length base]" using draw by (rule full_draw_set)
  have l: "length ?idx = length base" using draw by (simp add: valid_draw_def)
  have mb: "mset (map (\<lambda>i. base ! i) ?idx) = mset base"
    using ms mset_map_nth_upt [of base] by (metis mset_map)
  have mt: "mset (map (\<lambda>i. target ! i) ?idx) = mset target"
    using ms mset_map_nth_upt [of target] len by (metis mset_map)
  have z: "zip (map (\<lambda>i. base ! i) ?idx) (map (\<lambda>i. target ! i) ?idx)
             = map (\<lambda>i. (base ! i, target ! i)) ?idx"
    by (simp add: zip_map_map zip_same_conv_map)
  have "mset (map (\<lambda>i. (base ! i, target ! i)) ?idx)
          = mset (map (\<lambda>i. (base ! i, target ! i)) [0..<length base])"
    using ms by (metis mset_map)
  also have "\<dots> = mset (zip base target)" using len by (simp add: zip_as_index_map)
  finally have mz: "mset (zip (map (\<lambda>i. base ! i) ?idx) (map (\<lambda>i. target ! i) ?idx))
                      = mset (zip base target)"
    using z by simp
  from sp l len mb mt mz show ?thesis by simp
qed

theorem sample_pairs_clamps_oversized_sample_witness:
  "\<exists>out_base out_target.
     sample_pairs first_k [''dog'', ''cat''] [''madra'', ''cat''] 100 = Inr (out_base, out_target) \<and>
     length out_base = length [''dog'', ''cat''] \<and> length out_target = length [''madra'', ''cat''] \<and>
     mset out_base = mset [''dog'', ''cat''] \<and> mset out_target = mset [''madra'', ''cat''] \<and>
     mset (zip out_base out_target) = mset (zip [''dog'', ''cat''] [''madra'', ''cat''])"
proof -
  have d: "valid_draw (length [''dog'', ''cat'']) (length [''dog'', ''cat''])
             (first_k (length [''dog'', ''cat'']) (length [''dog'', ''cat'']))"
    by (simp add: valid_draw_def first_k_def upt_rec)
  show ?thesis
    using sample_pairs_clamps_oversized_sample
      [of "[''dog'', ''cat'']" "[''madra'', ''cat'']" 100 first_k, OF _ _ d]
    by simp
qed

section \<open>Properties of the layer accuracy\<close>

lemma argmax_scan_first:
  "is_first_argmax pre bi \<Longrightarrow>
   is_first_argmax (pre @ xs) (argmax_scan xs (length pre) (pre ! bi) bi)"
proof (induction xs arbitrary: pre bi)
  case Nil
  then show ?case by simp
next
  case (Cons x xs)
  show ?case
  proof (cases "pre ! bi < x")
    case True
    have "is_first_argmax (pre @ [x]) (length pre)"
      using Cons.prems True by (auto simp: is_first_argmax_def list_all_iff nth_append)
    from Cons.IH [OF this]
    have "is_first_argmax ((pre @ [x]) @ xs)
            (argmax_scan xs (length (pre @ [x])) ((pre @ [x]) ! length pre) (length pre))" .
    then show ?thesis using True by simp
  next
    case False
    have "is_first_argmax (pre @ [x]) bi"
      using Cons.prems False by (auto simp: is_first_argmax_def list_all_iff nth_append)
    from Cons.IH [OF this]
    have "is_first_argmax ((pre @ [x]) @ xs)
            (argmax_scan xs (length (pre @ [x])) ((pre @ [x]) ! bi) bi)" .
    moreover have "(pre @ [x]) ! bi = pre ! bi"
      using Cons.prems by (simp add: is_first_argmax_def nth_append)
    ultimately show ?thesis using False by simp
  qed
qed

lemma argmax_list_first: "r \<noteq> [] \<Longrightarrow> is_first_argmax r (argmax_list r)"
proof (cases r)
  case Nil
  then show "r \<noteq> [] \<Longrightarrow> ?thesis" by simp
next
  case (Cons x xs)
  have "is_first_argmax [x] 0" by (simp add: is_first_argmax_def)
  from argmax_scan_first [OF this, of xs] Cons show ?thesis by simp
qed

lemma sum_list_indicator:
  "sum_list (map (\<lambda>i. if P i then (1::real) else 0) xs) = real (length (filter P xs))"
  by (induction xs) simp_all

lemma map2_upt:
  "length ps = n \<Longrightarrow> map2 f ps [0..<n] = map (\<lambda>i. f (ps ! i) i) [0..<n]"
  by (rule nth_equalityI) simp_all

lemma layer_accuracy_value:
  assumes "size1 score \<noteq> 0" "length (rows score) = size0 score"
  shows "layer_accuracy score =
     Inr (real (length (filter (\<lambda>i. argmax_list (rows score ! i) = i) [0..<size0 score]))
          / real (size0 score))"
proof -
  let ?n = "size0 score"
  let ?preds = "map argmax_list (rows score)"
  have l: "length ?preds = ?n" using assms by simp
  have "map2 (\<lambda>p i. if p = i then (1::real) else 0) ?preds [0..<?n]
      = map (\<lambda>i. if ?preds ! i = i then 1 else 0) [0..<?n]"
    using l by (rule map2_upt)
  also have "\<dots> = map (\<lambda>i. if argmax_list (rows score ! i) = i then 1 else 0) [0..<?n]"
    using assms by simp
  finally have m: "map2 (\<lambda>p i. if p = i then (1::real) else 0) ?preds [0..<?n]
      = map (\<lambda>i. if argmax_list (rows score ! i) = i then 1 else 0) [0..<?n]" .
  show ?thesis
    using assms(1) unfolding layer_accuracy_def argmax_dim1_def
    by (simp add: m sum_list_indicator del: map_map)
qed

text \<open>
  Claim C4, amended. For every \<open>(n, n)\<close> score matrix with \<open>n \<ge> 1\<close>, \<^verbatim>\<open>layer_accuracy\<close>
  takes for each row the argmax column, ties broken by the first occurrence, and returns
  the number of rows whose argmax is the row index divided by \<open>n\<close>, a value in \<open>[0, 1]\<close>.
\<close>

theorem layer_accuracy_is_diagonal_argmax_fraction:
  assumes shape: "has_shape2 score n n" and pos: "0 < n"
  shows "\<exists>preds.
      argmax_dim1 score = Inr preds \<and> length preds = n \<and>
      list_all (\<lambda>i. is_first_argmax (rows score ! i) (preds ! i)) [0..<n] \<and>
      layer_accuracy score = Inr (real (length (filter (\<lambda>i. preds ! i = i) [0..<n])) / real n) \<and>
      0 \<le> real (length (filter (\<lambda>i. preds ! i = i) [0..<n])) / real n \<and>
      real (length (filter (\<lambda>i. preds ! i = i) [0..<n])) / real n \<le> 1"
proof -
  let ?preds = "map argmax_list (rows score)"
  from shape have s0: "size0 score = n" and s1: "size1 score = n"
    and lr: "length (rows score) = n" and rl: "\<And>i. i < n \<Longrightarrow> length (rows score ! i) = n"
    by (auto simp: has_shape2_def wf2_def list_all_length)
  have a: "argmax_dim1 score = Inr ?preds" using s1 pos by (simp add: argmax_dim1_def)
  have f: "list_all (\<lambda>i. is_first_argmax (rows score ! i) (?preds ! i)) [0..<n]"
  proof -
    have "is_first_argmax (rows score ! i) (?preds ! i)" if "i < n" for i
    proof -
      from rl [OF that] pos have "rows score ! i \<noteq> []" by auto
      then show ?thesis using that lr by (simp add: argmax_list_first)
    qed
    then show ?thesis by (simp add: list_all_iff)
  qed
  have eq: "filter (\<lambda>i. ?preds ! i = i) [0..<n] = filter (\<lambda>i. argmax_list (rows score ! i) = i) [0..<n]"
    using lr by (intro filter_cong) simp_all
  have v: "layer_accuracy score = Inr (real (length (filter (\<lambda>i. ?preds ! i = i) [0..<n])) / real n)"
    using layer_accuracy_value [of score] s0 s1 lr pos eq by simp
  have "length (filter (\<lambda>i. ?preds ! i = i) [0..<n]) \<le> n"
    using length_filter_le [of _ "[0..<n]"] by simp
  then have b: "real (length (filter (\<lambda>i. ?preds ! i = i) [0..<n])) / real n \<le> 1"
    using pos by simp
  have "length ?preds = n" using lr by simp
  with a f v b show ?thesis by (intro exI [of _ ?preds]) simp
qed

theorem layer_accuracy_is_diagonal_argmax_fraction_witness:
  "\<exists>preds.
      argmax_dim1 (Tensor2 2 2 [[1, 3], [5, 5]]) = Inr preds \<and> length preds = 2 \<and>
      list_all (\<lambda>i. is_first_argmax (rows (Tensor2 2 2 [[1, 3], [5, 5]]) ! i) (preds ! i)) [0..<2] \<and>
      layer_accuracy (Tensor2 2 2 [[1, 3], [5, 5]])
        = Inr (real (length (filter (\<lambda>i. preds ! i = i) [0..<2])) / real 2) \<and>
      0 \<le> real (length (filter (\<lambda>i. preds ! i = i) [0..<2])) / real 2 \<and>
      real (length (filter (\<lambda>i. preds ! i = i) [0..<2])) / real 2 \<le> 1"
proof -
  have s: "has_shape2 (Tensor2 2 2 [[1, 3], [5, 5::real]]) 2 2"
    by (simp add: has_shape2_def wf2_def)
  show ?thesis
    using layer_accuracy_is_diagonal_argmax_fraction [OF s] by simp
qed

text \<open>
  Claim C4 as stated covers \<open>n = 0\<close>: there \<^verbatim>\<open>argmax(dim=1)\<close> has nothing to reduce
  and raises, so no accuracy is returned.
\<close>

theorem layer_accuracy_empty_matrix_raises:
  "layer_accuracy (Tensor2 0 0 []) = Inl IndexError"
  by (simp add: layer_accuracy_def argmax_dim1_def)

lemma layer_accuracy_example:
  "layer_accuracy (Tensor2 2 2 [[1, 3], [5, 5]]) = Inr 0"
  by (simp add: layer_accuracy_def argmax_dim1_def upt_rec)

section \<open>Basic facts about tensors and broadcasting\<close>

lemma bcast_ix_lt [simp]: "i < n \<Longrightarrow> bcast_ix n i = i"
  by (simp add: bcast_ix_def)

lemma bcast_ix_one [simp]: "bcast_ix (Suc 0) i = 0"
  by (simp add: bcast_ix_def)

lemma bcast_ok_same [simp]: "bcast_ok n n"
  by (simp add: bcast_ok_def)

lemma bcast_ok_one [simp]: "bcast_ok n (Suc 0)" "bcast_ok (Suc 0) n"
  by (simp_all add: bcast_ok_def)

lemma bcast_dim_same [simp]: "bcast_dim n n = n"
  by (simp add: bcast_dim_def)

lemma bcast_dim_one [simp]: "bcast_dim n (Suc 0) = n" "bcast_dim (Suc 0) n = n"
  by (simp_all add: bcast_dim_def)

lemma tabulate2_sel [simp]:
  "size0 (tabulate2 n m f) = n" "size1 (tabulate2 n m f) = m"
  "rows (tabulate2 n m f) = map (\<lambda>i. map (\<lambda>j. f i j) [0..<m]) [0..<n]"
  by (simp_all add: tabulate2_def)

lemma tabulate3_sel [simp]:
  "dim_b (tabulate3 b l h f) = b" "dim_l (tabulate3 b l h f) = l" "dim_h (tabulate3 b l h f) = h"
  "seqs (tabulate3 b l h f) = map (\<lambda>s. map (\<lambda>p. map (\<lambda>j. f s p j) [0..<h]) [0..<l]) [0..<b]"
  by (simp_all add: tabulate3_def)

lemma at2_tabulate2 [simp]: "i < n \<Longrightarrow> j < m \<Longrightarrow> at2 (tabulate2 n m f) i j = f i j"
  by (simp add: at2_def)

lemma at3_tabulate3 [simp]:
  "s < b \<Longrightarrow> p < l \<Longrightarrow> j < h \<Longrightarrow> at3 (tabulate3 b l h f) s p j = f s p j"
  by (simp add: at3_def)

lemma wf2_tabulate2 [simp]: "wf2 (tabulate2 n m f)"
  by (simp add: wf2_def list_all_iff)

lemma tabulate2_cong:
  "(\<And>i j. i < n \<Longrightarrow> j < m \<Longrightarrow> f i j = g i j) \<Longrightarrow> tabulate2 n m f = tabulate2 n m g"
  by (simp add: tabulate2_def)

lemma tabulate3_cong:
  "(\<And>s p j. s < b \<Longrightarrow> p < l \<Longrightarrow> j < h \<Longrightarrow> f s p j = g s p j) \<Longrightarrow>
   tabulate3 b l h f = tabulate3 b l h g"
  by (simp add: tabulate3_def)

lemma sum_dim1_tabulate3:
  "sum_dim1 (tabulate3 b l h f) = tabulate2 b h (\<lambda>s j. sum_list (map (\<lambda>p. f s p j) [0..<l]))"
proof -
  have "sum_list (map (\<lambda>p. at3 (tabulate3 b l h f) s p j) [0..<l])
      = sum_list (map (\<lambda>p. f s p j) [0..<l])" if "s < b" "j < h" for s j
  proof -
    have "map (\<lambda>p. at3 (tabulate3 b l h f) s p j) [0..<l] = map (\<lambda>p. f s p j) [0..<l]"
      by (rule map_cong [OF refl]) (simp add: that)
    then show ?thesis by (rule arg_cong)
  qed
  then have "tabulate2 b h (\<lambda>s j. sum_list (map (\<lambda>p. at3 (tabulate3 b l h f) s p j) [0..<l]))
      = tabulate2 b h (\<lambda>s j. sum_list (map (\<lambda>p. f s p j) [0..<l]))"
    by (rule tabulate2_cong)
  then show ?thesis by (simp add: sum_dim1_def)
qed

lemma has_shape2D:
  assumes "has_shape2 t n m"
  shows "size0 t = n" "size1 t = m" "length (rows t) = n"
    "\<And>i. i < n \<Longrightarrow> length (rows t ! i) = m"
  using assms by (auto simp: has_shape2_def wf2_def list_all_length)

lemma has_shape3D:
  assumes "has_shape3 t b l h"
  shows "dim_b t = b" "dim_l t = l" "dim_h t = h" "length (seqs t) = b"
    "\<And>s. s < b \<Longrightarrow> length (seqs t ! s) = l"
    "\<And>s p. s < b \<Longrightarrow> p < l \<Longrightarrow> length (seqs t ! s ! p) = h"
  using assms by (auto simp: has_shape3_def wf3_def list_all_length)

section \<open>Properties of the pooling functions\<close>

lemma masked_sum:
  "list_all (\<lambda>p. m ! p = 0 \<or> m ! p = 1) ps \<Longrightarrow>
   sum_list (map (\<lambda>p. f p * real_of_int (m ! p)) ps) = sum_list (map f (filter (\<lambda>p. m ! p = 1) ps))"
  by (induction ps) auto

lemma binary_row_nth: "binary_row m \<Longrightarrow> list_all (\<lambda>p. m ! p = 0 \<or> m ! p = 1) [0..<length m]"
  by (simp add: binary_row_def list_all_length)

lemma mask_count:
  assumes "binary_row m"
  shows "sum_list (map (\<lambda>p. real_of_int (m ! p)) [0..<length m]) = real (length (unmasked_positions m))"
proof -
  have "sum_list (map (\<lambda>p. 1 * real_of_int (m ! p)) [0..<length m])
      = sum_list (map (\<lambda>p. 1) (filter (\<lambda>p. m ! p = 1) [0..<length m]))"
    using binary_row_nth [OF assms] by (rule masked_sum)
  then show ?thesis by (simp add: unmasked_positions_def sum_list_triv)
qed

lemma length_spec_mean_pool: "length (spec_mean_pool h vs m) = h"
  by (simp add: spec_mean_pool_def vec_average_def)

lemma mask_tensor:
  assumes "has_shape2 am b l"
  defines "mk \<equiv> map_tensor3 real_of_int (unsqueeze_last am)"
  shows "dim_b mk = b" "dim_l mk = l" "dim_h mk = Suc 0"
    "\<And>s p. s < b \<Longrightarrow> p < l \<Longrightarrow> at3 mk s p 0 = real_of_int (rows am ! s ! p)"
  using has_shape2D [OF assms(1)]
  by (simp_all add: mk_def map_tensor3_def unsqueeze_last_def at3_def)

lemma mean_hidden_state_rows:
  assumes hs: "has_shape3 hidden_states b l h"
    and am: "has_shape2 attention_mask b l"
    and bin: "list_all binary_row (rows attention_mask)"
  shows "mean_hidden_state hidden_states attention_mask =
     Inr (Tensor2 b h
       (map (\<lambda>s. spec_mean_pool h (seqs hidden_states ! s) (rows attention_mask ! s)) [0..<b]))"
proof -
  define mk where "mk = map_tensor3 real_of_int (unsqueeze_last attention_mask)"
  note m = mask_tensor [OF am, folded mk_def]
  note H = has_shape3D [OF hs]
  note A = has_shape2D [OF am]
  define masked where "masked = tabulate3 b l h
     (\<lambda>s p j. at3 hidden_states s p j * real_of_int (rows attention_mask ! s ! p))"
  have "tabulate3 b l h
     (\<lambda>s p j. at3 hidden_states (bcast_ix b s) (bcast_ix l p) (bcast_ix h j) *
               at3 mk (bcast_ix b s) (bcast_ix l p) (bcast_ix (Suc 0) j)) = masked"
    unfolding masked_def by (rule tabulate3_cong) (simp add: m)
  then have b3: "bcast3 (*) hidden_states mk = Inr masked"
    by (simp add: bcast3_def H m)
  have summed: "sum_dim1 masked = tabulate2 b h
      (\<lambda>s j. sum_list (map (\<lambda>p. at3 hidden_states s p j * real_of_int (rows attention_mask ! s ! p)) [0..<l]))"
    unfolding masked_def by (rule sum_dim1_tabulate3)
  have mk_tab: "mk = tabulate3 b l (Suc 0) (\<lambda>s p j. real_of_int (rows attention_mask ! s ! p))"
    using A unfolding mk_def map_tensor3_def unsqueeze_last_def tabulate3_def
    by (auto intro!: nth_equalityI)
  have count: "sum_dim1 mk = tabulate2 b (Suc 0)
      (\<lambda>s j. sum_list (map (\<lambda>p. real_of_int (rows attention_mask ! s ! p)) [0..<l]))"
    unfolding mk_tab by (rule sum_dim1_tabulate3)
  have entry: "sum_list (map (\<lambda>p. at3 hidden_states s p j * real_of_int (rows attention_mask ! s ! p)) [0..<l])
        / sum_list (map (\<lambda>p. real_of_int (rows attention_mask ! s ! p)) [0..<l])
      = spec_mean_pool h (seqs hidden_states ! s) (rows attention_mask ! s) ! j"
    if s: "s < b" and j: "j < h" for s j
  proof -
    let ?m = "rows attention_mask ! s"
    have len: "length ?m = l" using A s by simp
    have br: "binary_row ?m" using bin s A by (simp add: list_all_length)
    have n: "sum_list (map (\<lambda>p. at3 hidden_states s p j * real_of_int (?m ! p)) [0..<l])
        = sum_list (map (\<lambda>p. at3 hidden_states s p j) (unmasked_positions ?m))"
      using masked_sum [OF binary_row_nth [OF br], of "\<lambda>p. at3 hidden_states s p j"] len
      by (simp add: unmasked_positions_def)
    have d: "sum_list (map (\<lambda>p. real_of_int (?m ! p)) [0..<l]) = real (length (unmasked_positions ?m))"
      using mask_count [OF br] len by simp
    show ?thesis
      unfolding n d using j by (simp add: spec_mean_pool_def vec_average_def at3_def comp_def)
  qed
  have "tabulate2 b h
       (\<lambda>i j. at2 (sum_dim1 masked) (bcast_ix b i) (bcast_ix h j) /
               at2 (sum_dim1 mk) (bcast_ix b i) (bcast_ix (Suc 0) j))
      = tabulate2 b h (\<lambda>s j. spec_mean_pool h (seqs hidden_states ! s) (rows attention_mask ! s) ! j)"
    by (rule tabulate2_cong) (simp add: summed count entry)
  then have "bcast2 (/) (sum_dim1 masked) (sum_dim1 mk)
      = Inr (tabulate2 b h (\<lambda>s j. spec_mean_pool h (seqs hidden_states ! s) (rows attention_mask ! s) ! j))"
    by (simp add: bcast2_def summed count)
  also have "tabulate2 b h (\<lambda>s j. spec_mean_pool h (seqs hidden_states ! s) (rows attention_mask ! s) ! j)
      = Tensor2 b h (map (\<lambda>s. spec_mean_pool h (seqs hidden_states ! s) (rows attention_mask ! s)) [0..<b])"
  proof -
    have "map (\<lambda>j. spec_mean_pool h vs m ! j) [0..<h] = spec_mean_pool h vs m" for vs m
      using map_nth [of "spec_mean_pool h vs m"] by (simp add: length_spec_mean_pool)
    then show ?thesis by (simp add: tabulate2_def)
  qed
  finally show ?thesis
    unfolding mean_hidden_state_def mk_def [symmetric] Let_def by (simp add: b3)
qed

lemma unmasked_all_ones:
  "list_all (\<lambda>x. x = 1) m \<Longrightarrow> unmasked_positions m = [0..<length m]"
  by (simp add: unmasked_positions_def list_all_length)

lemma unmasked_positions_bound: "p \<in> set (unmasked_positions m) \<Longrightarrow> p < length m"
  by (simp add: unmasked_positions_def)

lemma count_of_ones_unmasked: "length (unmasked_positions m) = count_of_ones m"
proof -
  have "filter (\<lambda>x. x = 1) (map (\<lambda>p. m ! p) [0..<length m])
      = map (\<lambda>p. m ! p) (filter (\<lambda>p. m ! p = 1) [0..<length m])"
    by (simp add: filter_map comp_def)
  then have "length (filter (\<lambda>x. x = 1) m) = length (filter (\<lambda>p. m ! p = 1) [0..<length m])"
    by (simp add: map_nth)
  then show ?thesis by (simp add: count_of_ones_def unmasked_positions_def)
qed

text \<open>
  Claim C5. For a hidden-state tensor of shape \<open>(b, l, h)\<close> and a 0/1 attention mask of
  shape \<open>(b, l)\<close> with at least one 1 in every row, \<^verbatim>\<open>mean_hidden_state\<close> returns for
  each sequence the average of its hidden vectors at the positions where the mask is 1.
  With an all-ones mask row this is the arithmetic mean of all token vectors, and with
  exactly one unmasked position it is that token's vector.
\<close>

theorem mean_pooling_averages_unmasked_positions:
  assumes hs: "has_shape3 hidden_states b l h"
    and am: "has_shape2 attention_mask b l"
    and ok: "list_all (\<lambda>m. binary_row m \<and> 1 \<le> count_of_ones m) (rows attention_mask)"
  shows "mean_hidden_state hidden_states attention_mask =
       Inr (Tensor2 b h
         (map (\<lambda>s. spec_mean_pool h (seqs hidden_states ! s) (rows attention_mask ! s)) [0..<b]))
     \<and> (\<forall>s<b.
          (list_all (\<lambda>x. x = 1) (rows attention_mask ! s) \<longrightarrow>
             spec_mean_pool h (seqs hidden_states ! s) (rows attention_mask ! s)
               = vec_average h (seqs hidden_states ! s))
        \<and> (\<forall>p. unmasked_positions (rows attention_mask ! s) = [p] \<longrightarrow>
             spec_mean_pool h (seqs hidden_states ! s) (rows attention_mask ! s)
               = seqs hidden_states ! s ! p))"
proof (intro conjI allI impI)
  from ok have "list_all binary_row (rows attention_mask)" by (simp add: list_all_iff)
  from mean_hidden_state_rows [OF hs am this]
  show "mean_hidden_state hidden_states attention_mask =
       Inr (Tensor2 b h
         (map (\<lambda>s. spec_mean_pool h (seqs hidden_states ! s) (rows attention_mask ! s)) [0..<b]))" .
next
  fix s assume s: "s < b" and ones: "list_all (\<lambda>x. x = 1) (rows attention_mask ! s)"
  have "length (rows attention_mask ! s) = l" using has_shape2D [OF am] s by simp
  moreover have "length (seqs hidden_states ! s) = l" using has_shape3D [OF hs] s by simp
  ultimately have "map (\<lambda>p. seqs hidden_states ! s ! p) (unmasked_positions (rows attention_mask ! s))
      = seqs hidden_states ! s"
    using unmasked_all_ones [OF ones] map_nth [of "seqs hidden_states ! s"] by simp
  then show "spec_mean_pool h (seqs hidden_states ! s) (rows attention_mask ! s)
               = vec_average h (seqs hidden_states ! s)"
    by (simp add: spec_mean_pool_def)
next
  fix s p assume s: "s < b" and one: "unmasked_positions (rows attention_mask ! s) = [p]"
  have "p \<in> set (unmasked_positions (rows attention_mask ! s))" using one by simp
  then have "p < length (rows attention_mask ! s)" by (rule unmasked_positions_bound)
  then have "p < l" using has_shape2D [OF am] s by simp
  then have len: "length (seqs hidden_states ! s ! p) = h" using has_shape3D [OF hs] s by simp
  have "map (\<lambda>j. seqs hidden_states ! s ! p ! j) [0..<h] = seqs hidden_states ! s ! p"
    using map_nth [of "seqs hidden_states ! s ! p"] len by simp
  then show "spec_mean_pool h (seqs hidden_states ! s) (rows attention_mask ! s)
               = seqs hidden_states ! s ! p"
    by (simp add: spec_mean_pool_def vec_average_def one)
qed

theorem mean_pooling_averages_unmasked_positions_witness:
  "mean_hidden_state (Tensor3 1 3 2 [[[1, 1], [3, 3], [9, 9]]]) (Tensor2 1 3 [[1, 1, 0]])
     = Inr (Tensor2 1 2 [[2, 2]])"
proof -
  have hs: "has_shape3 (Tensor3 1 3 2 [[[1, 1], [3, 3], [9, 9::real]]]) 1 3 2"
    by (simp add: has_shape3_def wf3_def)
  have am: "has_shape2 (Tensor2 1 3 [[1, 1, 0::int]]) 1 3"
    by (simp add: has_shape2_def wf2_def)
  have ok: "list_all (\<lambda>m. binary_row m \<and> 1 \<le> count_of_ones m) (rows (Tensor2 1 3 [[1, 1, 0::int]]))"
    by (simp add: binary_row_def count_of_ones_def)
  have u: "unmasked_positions [1, 1, 0] = [0, 1]"
    by (simp add: unmasked_positions_def upt_rec)
  show ?thesis
    using mean_pooling_averages_unmasked_positions [OF hs am ok]
    by (simp add: spec_mean_pool_def vec_average_def u upt_rec)
qed

lemma right_padded_nonzero_count:
  assumes "right_padded m"
  shows "length (filter (\<lambda>x. x \<noteq> 0) m) = count_of_ones m"
proof -
  obtain c k where m: "m = replicate c 1 @ replicate k (0::int)"
    using assms unfolding right_padded_def by blast
  show ?thesis unfolding count_of_ones_def by (subst (1 2) m) simp
qed

lemma right_padded_shape:
  assumes "right_padded m" "1 \<le> count_of_ones m"
  shows "count_of_ones m \<le> length m"
    "m ! (count_of_ones m - 1) = 1"
    "\<And>p. p < length m \<Longrightarrow> count_of_ones m - 1 < p \<Longrightarrow> m ! p = 0"
proof -
  let ?c = "count_of_ones m"
  have m: "m = replicate ?c 1 @ replicate (length m - ?c) 0"
    using assms(1) by (simp add: right_padded_def)
  show le: "?c \<le> length m" by (simp add: count_of_ones_def)
  have "(replicate ?c 1 @ replicate (length m - ?c) (0::int)) ! (?c - 1) = 1"
    using assms(2) by (simp add: nth_append)
  then show "m ! (?c - 1) = 1" using m by simp
  fix p assume p: "p < length m" "?c - 1 < p"
  then have "(replicate ?c 1 @ replicate (length m - ?c) (0::int)) ! p = 0"
    using assms(2) by (simp add: nth_append)
  then show "m ! p = 0" using m by simp
qed

lemma last_token_hidden_state_rows:
  assumes hs: "has_shape3 hidden_states b l h"
    and am: "has_shape2 attention_mask b l"
    and ok: "list_all (\<lambda>m. right_padded m \<and> 1 \<le> count_of_ones m) (rows attention_mask)"
  shows "last_token_hidden_state hidden_states attention_mask =
       Inr (Tensor2 b h
         (map (\<lambda>s. seqs hidden_states ! s ! (count_of_ones (rows attention_mask ! s) - 1)) [0..<b]))"
proof -
  note H = has_shape3D [OF hs]
  note A = has_shape2D [OF am]
  define js where "js = map (\<lambda>r. int (length (filter (\<lambda>m. m \<noteq> 0) r)) - 1) (rows attention_mask)"
  define bs where "bs = map int [0..<b]"
  have row: "right_padded (rows attention_mask ! s)" "1 \<le> count_of_ones (rows attention_mask ! s)"
    if "s < b" for s
    using ok that A by (simp_all add: list_all_length)
  have jq: "js ! q = int (count_of_ones (rows attention_mask ! q)) - 1" if "q < b" for q
    using that A row [OF that] by (simp add: js_def right_padded_nonzero_count)
  have iq: "bs ! q = int q" if "q < b" for q
    using that by (simp add: bs_def)
  have cl: "count_of_ones (rows attention_mask ! q) \<le> l" if "q < b" for q
    using right_padded_shape(1) [OF row [OF that]] A that by simp
  have len: "length bs = b" "length js = b" using A by (simp_all add: bs_def js_def)
  have chk: "list_all (\<lambda>q. index_ok b (bs ! bcast_ix b q) \<and> index_ok l (js ! bcast_ix b q)) [0..<b]"
  proof -
    have "index_ok b (bs ! bcast_ix b q) \<and> index_ok l (js ! bcast_ix b q)" if q: "q < b" for q
      using row(2) [OF q] cl [OF q] q by (simp add: iq jq index_ok_def)
    then show ?thesis by (simp add: list_all_iff)
  qed
  have sel: "map (\<lambda>q. seqs hidden_states ! wrap_index b (bs ! bcast_ix b q)
                    ! wrap_index l (js ! bcast_ix b q)) [0..<b]
      = map (\<lambda>s. seqs hidden_states ! s ! (count_of_ones (rows attention_mask ! s) - 1)) [0..<b]"
  proof (rule map_cong [OF refl])
    fix q assume "q \<in> set [0..<b]"
    then have q: "q < b" by simp
    have "nat (int (count_of_ones (rows attention_mask ! q)) - 1)
        = count_of_ones (rows attention_mask ! q) - 1" by simp
    then show "seqs hidden_states ! wrap_index b (bs ! bcast_ix b q) ! wrap_index l (js ! bcast_ix b q)
        = seqs hidden_states ! q ! (count_of_ones (rows attention_mask ! q) - 1)"
      using q row [OF q] by (simp add: iq jq wrap_index_def)
  qed
  have "index_pairs hidden_states bs js =
      Inr (Tensor2 b h
         (map (\<lambda>s. seqs hidden_states ! s ! (count_of_ones (rows attention_mask ! s) - 1)) [0..<b]))"
    unfolding index_pairs_def Let_def len H using chk sel by simp
  then show ?thesis
    unfolding last_token_hidden_state_def Let_def bs_def js_def H .
qed

text \<open>
  Claim C6. For a hidden-state tensor of shape \<open>(b, l, h)\<close> and a right-padded 0/1
  attention mask of shape \<open>(b, l)\<close> with at least one 1 in every row,
  \<^verbatim>\<open>last_token_hidden_state\<close> returns for each sequence the hidden vector at index
  \<open>count_of_ones - 1\<close>, which is the last position whose mask is 1; on an all-ones row of
  length \<open>l\<close> that index is \<open>l - 1\<close>. The witness evaluates the mask \<open>[1,1,1,0,0]\<close>, where
  index 2 is selected.
\<close>

theorem last_token_pooling_selects_count_minus_one:
  assumes hs: "has_shape3 hidden_states b l h"
    and am: "has_shape2 attention_mask b l"
    and ok: "list_all (\<lambda>m. right_padded m \<and> 1 \<le> count_of_ones m) (rows attention_mask)"
  shows "last_token_hidden_state hidden_states attention_mask =
       Inr (Tensor2 b h
         (map (\<lambda>s. seqs hidden_states ! s ! (count_of_ones (rows attention_mask ! s) - 1)) [0..<b]))
     \<and> (\<forall>s<b.
          count_of_ones (rows attention_mask ! s) - 1 < l
        \<and> rows attention_mask ! s ! (count_of_ones (rows attention_mask ! s) - 1) = 1
        \<and> (\<forall>p<l. count_of_ones (rows attention_mask ! s) - 1 < p \<longrightarrow> rows attention_mask ! s ! p = 0)
        \<and> (list_all (\<lambda>x. x = 1) (rows attention_mask ! s) \<longrightarrow>
             count_of_ones (rows attention_mask ! s) - 1 = l - 1))"
proof (intro conjI allI impI)
  show "last_token_hidden_state hidden_states attention_mask =
       Inr (Tensor2 b h
         (map (\<lambda>s. seqs hidden_states ! s ! (count_of_ones (rows attention_mask ! s) - 1)) [0..<b]))"
    using hs am ok by (rule last_token_hidden_state_rows)
next
  fix s assume s: "s < b"
  let ?m = "rows attention_mask ! s"
  have len: "length ?m = l" using has_shape2D [OF am] s by simp
  have row: "right_padded ?m" "1 \<le> count_of_ones ?m"
    using ok s has_shape2D [OF am] by (simp_all add: list_all_length)
  note sh = right_padded_shape [OF row]
  show "count_of_ones ?m - 1 < l" using sh(1) row(2) len by simp
  show "?m ! (count_of_ones ?m - 1) = 1" by (rule sh(2))
  { fix p assume "p < l" "count_of_ones ?m - 1 < p"
    then show "?m ! p = 0" using sh(3) [of p] len by simp }
  { assume "list_all (\<lambda>x. x = 1) ?m"
    then have "filter (\<lambda>x. x = 1) ?m = ?m" by (simp add: list_all_iff)
    then show "count_of_ones ?m - 1 = l - 1" using len by (simp add: count_of_ones_def) }
qed

theorem last_token_pooling_selects_count_minus_one_witness:
  "last_token_hidden_state (Tensor3 1 5 1 [[[10], [20], [30], [40], [50]]]) (Tensor2 1 5 [[1, 1, 1, 0, 0]])
     = Inr (Tensor2 1 1 [[30]])
   \<and> last_token_hidden_state (Tensor3 1 3 2 [[[1, 1], [3, 3], [9, 9]]]) (Tensor2 1 3 [[1, 1, 0]])
     = Inr (Tensor2 1 2 [[3, 3]])"
proof -
  have hs: "has_shape3 (Tensor3 1 5 1 [[[10], [20], [30], [40], [50::real]]]) 1 5 1"
    by (simp add: has_shape3_def wf3_def)
  have am: "has_shape2 (Tensor2 1 5 [[1, 1, 1, 0, 0::int]]) 1 5"
    by (simp add: has_shape2_def wf2_def)
  have ok: "list_all (\<lambda>m. right_padded m \<and> 1 \<le> count_of_ones m)
              (rows (Tensor2 1 5 [[1, 1, 1, 0, 0::int]]))"
    by (simp add: right_padded_def count_of_ones_def numeral_eq_Suc)
  have hs': "has_shape3 (Tensor3 1 3 2 [[[1, 1], [3, 3], [9, 9::real]]]) 1 3 2"
    by (simp add: has_shape3_def wf3_def)
  have am': "has_shape2 (Tensor2 1 3 [[1, 1, 0::int]]) 1 3"
    by (simp add: has_shape2_def wf2_def)
  have ok': "list_all (\<lambda>m. right_padded m \<and> 1 \<le> count_of_ones m) (rows (Tensor2 1 3 [[1, 1, 0::int]]))"
    by (simp add: right_padded_def count_of_ones_def numeral_eq_Suc)
  show ?thesis
    using last_token_pooling_selects_count_minus_one [OF hs am ok]
          last_token_pooling_selects_count_minus_one [OF hs' am' ok']
    by (simp add: count_of_ones_def)
qed

section \<open>Properties of the margin-based scoring\<close>

lemma at2_Tensor2 [simp]: "at2 (Tensor2 n m rs) i j = rs ! i ! j"
  by (simp add: at2_def)

lemma sum_upt_map2:
  "length u = h \<Longrightarrow> length v = h \<Longrightarrow>
   sum_list (map (\<lambda>c. f (u ! c) * g (v ! c)) [0..<h]) = sum_list (map2 (*) (map f u) (map g v))"
proof -
  assume l: "length u = h" "length v = h"
  have "map2 (*) (map f u) (map g v) = map (\<lambda>c. f (u ! c) * g (v ! c)) [0..<h]"
    using l by (intro nth_equalityI) simp_all
  then show ?thesis by simp
qed

lemma cosine_similarity_eq:
  assumes f: "has_shape2 first n1 h" and s: "has_shape2 second n2 h"
  shows "cosine_similarity first second =
     Inr (tabulate2 n1 n2 (\<lambda>i j. cos_sim (rows first ! i) (rows second ! j)))"
proof -
  note F = has_shape2D [OF f]
  note S = has_shape2D [OF s]
  have norm_at: "rows (norm_dim1_keepdim t) ! i ! 0 = row_norm (rows t ! i)"
    if "i < n" "has_shape2 t n h" for t :: "real tensor2" and i n
    using that has_shape2D [OF that(2)] by (simp add: norm_dim1_keepdim_def row_norm_def)
  have nsz: "size0 (norm_dim1_keepdim t) = size0 t" "size1 (norm_dim1_keepdim t) = Suc 0"
    for t :: "real tensor2"
    by (simp_all add: norm_dim1_keepdim_def)
  have normalised: "bcast2 (/) t (norm_dim1_keepdim t)
      = Inr (tabulate2 n h (\<lambda>i j. rows t ! i ! j / row_norm (rows t ! i)))"
    if t: "has_shape2 t n h" for t :: "real tensor2" and n
  proof -
    note T = has_shape2D [OF t]
    have "tabulate2 n h (\<lambda>i j. at2 t (bcast_ix n i) (bcast_ix h j) /
              at2 (norm_dim1_keepdim t) (bcast_ix n i) (bcast_ix (Suc 0) j))
        = tabulate2 n h (\<lambda>i j. rows t ! i ! j / row_norm (rows t ! i))"
      by (rule tabulate2_cong) (simp add: norm_at [OF _ t] at2_def)
    then show ?thesis by (simp add: bcast2_def nsz T)
  qed
  define fn where "fn = tabulate2 n1 h (\<lambda>i j. rows first ! i ! j / row_norm (rows first ! i))"
  define sn where "sn = tabulate2 n2 h (\<lambda>i j. rows second ! i ! j / row_norm (rows second ! i))"
  have entry: "sum_list (map (\<lambda>c. at2 fn i c * at2 (transpose_T sn) c j) [0..<h])
      = cos_sim (rows first ! i) (rows second ! j)" if i: "i < n1" and j: "j < n2" for i j
  proof -
    have "map (\<lambda>c. at2 fn i c * at2 (transpose_T sn) c j) [0..<h]
        = map (\<lambda>c. (rows first ! i ! c / row_norm (rows first ! i)) *
                    (rows second ! j ! c / row_norm (rows second ! j))) [0..<h]"
      by (rule map_cong [OF refl]) (simp add: fn_def sn_def transpose_T_def i j)
    then have "sum_list (map (\<lambda>c. at2 fn i c * at2 (transpose_T sn) c j) [0..<h])
        = sum_list (map (\<lambda>c. (rows first ! i ! c / row_norm (rows first ! i)) *
                    (rows second ! j ! c / row_norm (rows second ! j))) [0..<h])"
      by (rule arg_cong)
    also have "\<dots> = sum_list (map2 (*) (map (\<lambda>x. x / row_norm (rows first ! i)) (rows first ! i))
                                  (map (\<lambda>x. x / row_norm (rows second ! j)) (rows second ! j)))"
      by (rule sum_upt_map2) (simp_all add: F S i j)
    also have "\<dots> = cos_sim (rows first ! i) (rows second ! j)"
      by (simp add: cos_sim_def dot_def l2_normalize_def)
    finally show ?thesis .
  qed
  have "tabulate2 n1 n2 (\<lambda>i j. sum_list (map (\<lambda>c. at2 fn i c * at2 (transpose_T sn) c j) [0..<h]))
      = tabulate2 n1 n2 (\<lambda>i j. cos_sim (rows first ! i) (rows second ! j))"
    by (rule tabulate2_cong) (rule entry)
  then have "matmul fn (transpose_T sn)
      = Inr (tabulate2 n1 n2 (\<lambda>i j. cos_sim (rows first ! i) (rows second ! j)))"
    by (simp add: matmul_def fn_def sn_def transpose_T_def)
  then show ?thesis
    unfolding cosine_similarity_def
    by (simp add: normalised [OF f] normalised [OF s] fn_def sn_def)
qed

lemma map_tensor2_tabulate2:
  "map_tensor2 f (tabulate2 n m g) = tabulate2 n m (\<lambda>i j. f (g i j))"
  by (simp add: map_tensor2_def tabulate2_def)

lemma length_topk_list: "k \<le> length xs \<Longrightarrow> length (topk_list k xs) = k"
  by (simp add: topk_list_def)

lemma sum_nth_upt: "length xs = k \<Longrightarrow> sum_list (map (\<lambda>i. xs ! i) [0..<k]) = sum_list xs"
  using map_nth [of xs] by simp

lemma rows_transpose_T:
  assumes "has_shape2 a n1 n2"
  shows "rows (transpose_T a) = map (column a) [0..<n2]"
proof -
  note A = has_shape2D [OF assms]
  have "map (\<lambda>i. at2 a i j) [0..<n1] = column a j" for j
    unfolding column_def at2_def using A(3) by (intro nth_equalityI) simp_all
  then show ?thesis by (simp add: transpose_T_def A)
qed

lemma length_column: "has_shape2 a n1 n2 \<Longrightarrow> length (column a j) = n1"
  by (simp add: column_def has_shape2D)

lemma baseline_tensor:
  assumes a: "has_shape2 a n1 n2" and k: "0 \<le> k"
  shows "\<exists>nn_k_row nn_k_col.
     topk_values_dim1 a (min k (int (size1 a))) = Inr nn_k_row \<and>
     has_shape2 nn_k_row n1 (min (nat k) n2) \<and>
     topk_values_dim0 a (min k (int (size0 a))) = Inr nn_k_col \<and>
     has_shape2 nn_k_col (min (nat k) n1) n2 \<and>
     bcast2 (+) (mean_dim1_keepdim nn_k_row) (mean_dim0_keepdim nn_k_col) =
       Inr (tabulate2 n1 n2 (\<lambda>i j.
          mean_list (topk_list (min (nat k) n2) (rows a ! i)) +
          mean_list (topk_list (min (nat k) n1) (column a j))))"
proof -
  note A = has_shape2D [OF a]
  define k1 where "k1 = min (nat k) n2"
  define k0 where "k0 = min (nat k) n1"
  have k1: "nat (min k (int n2)) = k1" and k0: "nat (min k (int n1)) = k0"
    using k unfolding k1_def k0_def by linarith+
  define nn_k_row where "nn_k_row = Tensor2 n1 k1 (map (topk_list k1) (rows a))"
  define X where "X = Tensor2 n2 k0 (map (topk_list k0) (map (column a) [0..<n2]))"
  define nn_k_col where "nn_k_col = transpose_T X"
  have t1: "topk_values_dim1 a (min k (int (size1 a))) = Inr nn_k_row"
    using k by (simp add: topk_values_dim1_def A k1 nn_k_row_def)
  have t0: "topk_values_dim0 a (min k (int (size0 a))) = Inr nn_k_col"
    using k by (simp add: topk_values_dim0_def A k0 nn_k_col_def X_def rows_transpose_T [OF a])
  have lr: "length (topk_list k1 (rows a ! i)) = k1" if "i < n1" for i
    using that A by (simp add: length_topk_list k1_def)
  have lc: "length (topk_list k0 (column a j)) = k0" for j
    by (simp add: length_topk_list k0_def length_column [OF a])
  have s1: "has_shape2 nn_k_row n1 k1"
    using A lr by (simp add: nn_k_row_def has_shape2_def wf2_def list_all_length)
  have s0: "has_shape2 nn_k_col k0 n2"
    by (simp add: nn_k_col_def transpose_T_def X_def has_shape2_def)
  have R: "at2 (mean_dim1_keepdim nn_k_row) i 0 = mean_list (topk_list k1 (rows a ! i))"
    if "i < n1" for i
    using that A lr [OF that] by (simp add: mean_dim1_keepdim_def nn_k_row_def mean_list_def)
  have C: "at2 (mean_dim0_keepdim nn_k_col) 0 j = mean_list (topk_list k0 (column a j))"
    if j: "j < n2" for j
  proof -
    have "map (\<lambda>i. at2 nn_k_col i j) [0..<k0] = map (\<lambda>i. topk_list k0 (column a j) ! i) [0..<k0]"
      by (rule map_cong [OF refl]) (simp add: nn_k_col_def transpose_T_def X_def j)
    then have "sum_list (map (\<lambda>i. at2 nn_k_col i j) [0..<k0])
        = sum_list (map (\<lambda>i. topk_list k0 (column a j) ! i) [0..<k0])"
      by (rule arg_cong)
    also have "\<dots> = sum_list (topk_list k0 (column a j))"
      by (rule sum_nth_upt [OF lc])
    finally have "sum_list (map (\<lambda>i. at2 nn_k_col i j) [0..<k0])
        = sum_list (topk_list k0 (column a j))" .
    then show ?thesis
      using j lc [of j] by (simp add: mean_dim0_keepdim_def nn_k_col_def transpose_T_def X_def mean_list_def)
  qed
  have sz: "size0 (mean_dim1_keepdim nn_k_row) = n1" "size1 (mean_dim1_keepdim nn_k_row) = Suc 0"
    "size0 (mean_dim0_keepdim nn_k_col) = Suc 0" "size1 (mean_dim0_keepdim nn_k_col) = n2"
    by (simp_all add: mean_dim1_keepdim_def mean_dim0_keepdim_def nn_k_row_def nn_k_col_def
        transpose_T_def X_def)
  have "tabulate2 n1 n2 (\<lambda>i j.
          at2 (mean_dim1_keepdim nn_k_row) (bcast_ix n1 i) (bcast_ix (Suc 0) j) +
          at2 (mean_dim0_keepdim nn_k_col) (bcast_ix (Suc 0) i) (bcast_ix n2 j))
      = tabulate2 n1 n2 (\<lambda>i j. mean_list (topk_list k1 (rows a ! i)) +
          mean_list (topk_list k0 (column a j)))"
    by (rule tabulate2_cong) (simp add: R C)
  then have bc: "bcast2 (+) (mean_dim1_keepdim nn_k_row) (mean_dim0_keepdim nn_k_col) =
       Inr (tabulate2 n1 n2 (\<lambda>i j. mean_list (topk_list k1 (rows a ! i)) +
          mean_list (topk_list k0 (column a j))))"
    by (simp add: bcast2_def sz)
  from t1 s1 t0 s0 bc show ?thesis unfolding k1_def k0_def by blast
qed

lemma cosine_similarity_matrix:
  assumes "has_shape2 first n1 h" "has_shape2 second n2 h"
  shows "cosine_similarity first second = Inr (cosine_matrix first second)"
    and "has_shape2 (cosine_matrix first second) n1 n2"
  using cosine_similarity_eq [OF assms] has_shape2D [OF assms(1)] has_shape2D [OF assms(2)]
  by (simp_all add: cosine_matrix_def has_shape2_def)

lemma bcast2_same_shape:
  assumes "size0 x = n" "size1 x = m" "size0 y = n" "size1 y = m"
  shows "bcast2 f x y = Inr (tabulate2 n m (\<lambda>i j. f (at2 x i j) (at2 y i j)))"
proof -
  have "tabulate2 n m (\<lambda>i j. f (at2 x (bcast_ix n i) (bcast_ix m j)) (at2 y (bcast_ix n i) (bcast_ix m j)))
      = tabulate2 n m (\<lambda>i j. f (at2 x i j) (at2 y i j))"
    by (rule tabulate2_cong) simp
  then show ?thesis by (simp add: bcast2_def assms)
qed

lemma margin_based_scoring_eq:
  assumes f: "has_shape2 first n1 h" and s: "has_shape2 second n2 h" and k: "0 \<le> k"
  shows "margin_based_scoring first second k variant eps =
     Inr (if variant = ''absolute'' then cosine_matrix first second
          else tabulate2 n1 n2 (spec_margin_score (cosine_matrix first second) (nat k) variant eps))"
proof (cases "variant = ''absolute''")
  case True
  then show ?thesis
    by (simp add: margin_based_scoring_def cosine_similarity_matrix(1) [OF f s])
next
  case False
  define a where "a = cosine_matrix first second"
  have a: "has_shape2 a n1 n2" unfolding a_def by (rule cosine_similarity_matrix(2) [OF f s])
  note A = has_shape2D [OF a]
  obtain nn_k_row nn_k_col where
    t1: "topk_values_dim1 a (min k (int (size1 a))) = Inr nn_k_row" and
    t0: "topk_values_dim0 a (min k (int (size0 a))) = Inr nn_k_col" and
    bc: "bcast2 (+) (mean_dim1_keepdim nn_k_row) (mean_dim0_keepdim nn_k_col) =
       Inr (tabulate2 n1 n2 (\<lambda>i j.
          mean_list (topk_list (min (nat k) n2) (rows a ! i)) +
          mean_list (topk_list (min (nat k) n1) (column a j))))"
    using baseline_tensor [OF a k] by blast
  define b where "b = tabulate2 n1 n2 (\<lambda>i j. spec_baseline a (nat k) eps i j)"
  have b: "map_tensor2 (\<lambda>x. x + eps) (map_tensor2 (\<lambda>x. x / 2)
        (tabulate2 n1 n2 (\<lambda>i j.
          mean_list (topk_list (min (nat k) n2) (rows a ! i)) +
          mean_list (topk_list (min (nat k) n1) (column a j))))) = b"
    by (simp add: map_tensor2_tabulate2 b_def spec_baseline_def A)
  have fin: "bcast2 op a b = Inr (tabulate2 n1 n2 (\<lambda>i j. op (at2 a i j) (spec_baseline a (nat k) eps i j)))"
    for op :: "real \<Rightarrow> real \<Rightarrow> real"
  proof -
    have "tabulate2 n1 n2 (\<lambda>i j. op (at2 a i j) (at2 b i j))
        = tabulate2 n1 n2 (\<lambda>i j. op (at2 a i j) (spec_baseline a (nat k) eps i j))"
      by (rule tabulate2_cong) (simp add: b_def)
    then show ?thesis
      using bcast2_same_shape [of a n1 n2 b op] A by (simp add: b_def)
  qed
  have sms: "spec_margin_score a (nat k) variant eps
      = (\<lambda>i j. if variant = ''distance'' then at2 a i j - spec_baseline a (nat k) eps i j
                else at2 a i j / spec_baseline a (nat k) eps i j)"
    by (intro ext) (simp add: spec_margin_score_def)
  show ?thesis
    using False
    by (simp add: margin_based_scoring_def cosine_similarity_matrix(1) [OF f s] a_def [symmetric]
        t1 t0 bc b fin sms Let_def)
qed

text \<open>
  Without the clamp \<^verbatim>\<open>min(k, size)\<close> the top-k selection would raise, and it raises
  for a negative \<open>k\<close>.
\<close>

lemma topk_beyond_size_raises:
  "int (size1 a) < k \<Longrightarrow> topk_values_dim1 a k = Inl RuntimeError"
  "int (size0 a) < k \<Longrightarrow> topk_values_dim0 a k = Inl RuntimeError"
  by (simp_all add: topk_values_dim1_def topk_values_dim0_def)

lemma margin_based_scoring_negative_k:
  assumes f: "has_shape2 first n1 h" and s: "has_shape2 second n2 h"
    and k: "k < 0" and v: "variant \<noteq> ''absolute''"
  shows "margin_based_scoring first second k variant eps = Inl RuntimeError"
  using k v
  by (simp add: margin_based_scoring_def cosine_similarity_matrix(1) [OF f s]
      topk_values_dim1_def min_def)

lemma margin_based_scoring_absolute:
  assumes f: "has_shape2 first n1 h" and s: "has_shape2 second n2 h"
  shows "margin_based_scoring first second k ''absolute'' eps = Inr (cosine_matrix first second)"
  by (simp add: margin_based_scoring_def cosine_similarity_matrix(1) [OF f s])

lemma neighbourhood_tensors:
  assumes a: "has_shape2 a n1 n2" and k: "0 \<le> k"
  shows "\<exists>nn_k_row nn_k_col.
     topk_values_dim1 a (min k (int (size1 a))) = Inr nn_k_row \<and>
     has_shape2 nn_k_row n1 (min (nat k) n2) \<and>
     topk_values_dim0 a (min k (int (size0 a))) = Inr nn_k_col \<and>
     has_shape2 nn_k_col (min (nat k) n1) n2 \<and>
     (\<forall>i<n1. rows nn_k_row ! i = topk_list (min (nat k) n2) (rows a ! i)) \<and>
     (\<forall>j<n2. column nn_k_col j = topk_list (min (nat k) n1) (column a j))"
proof -
  note A = has_shape2D [OF a]
  define k1 where "k1 = min (nat k) n2"
  define k0 where "k0 = min (nat k) n1"
  have k1: "nat (min k (int n2)) = k1" and k0: "nat (min k (int n1)) = k0"
    using k unfolding k1_def k0_def by linarith+
  define nn_k_row where "nn_k_row = Tensor2 n1 k1 (map (topk_list k1) (rows a))"
  define X where "X = Tensor2 n2 k0 (map (topk_list k0) (map (column a) [0..<n2]))"
  define nn_k_col where "nn_k_col = transpose_T X"
  have t1: "topk_values_dim1 a (min k (int (size1 a))) = Inr nn_k_row"
    using k by (simp add: topk_values_dim1_def A k1 nn_k_row_def)
  have t0: "topk_values_dim0 a (min k (int (size0 a))) = Inr nn_k_col"
    using k by (simp add: topk_values_dim0_def A k0 nn_k_col_def X_def rows_transpose_T [OF a])
  have lr: "length (topk_list k1 (rows a ! i)) = k1" if "i < n1" for i
    using that A by (simp add: length_topk_list k1_def)
  have lc: "length (topk_list k0 (column a j)) = k0" for j
    by (simp add: length_topk_list k0_def length_column [OF a])
  have s1: "has_shape2 nn_k_row n1 k1"
    using A lr by (simp add: nn_k_row_def has_shape2_def wf2_def list_all_length)
  have s0: "has_shape2 nn_k_col k0 n2"
    by (simp add: nn_k_col_def transpose_T_def X_def has_shape2_def)
  have r: "\<forall>i<n1. rows nn_k_row ! i = topk_list k1 (rows a ! i)"
    using A by (simp add: nn_k_row_def)
  have c: "column nn_k_col j = topk_list k0 (column a j)" if j: "j < n2" for j
  proof -
    have "column nn_k_col j = map (\<lambda>i. topk_list k0 (column a j) ! i) [0..<k0]"
      unfolding column_def [of nn_k_col]
      using j by (simp add: nn_k_col_def transpose_T_def X_def tabulate2_def)
    also have "\<dots> = topk_list k0 (column a j)"
      using map_nth [of "topk_list k0 (column a j)"] lc [of j] by simp
    finally show ?thesis .
  qed
  from t1 s1 t0 s0 r c show ?thesis unfolding k1_def k0_def by blast
qed

text \<open>Two small inputs for evaluation: the two unit vectors of the plane, and the first of them alone.\<close>

lemma id2_shape: "has_shape2 (Tensor2 2 2 [[1, 0], [0, 1::real]]) 2 2"
  by (simp add: has_shape2_def wf2_def)

lemma id2_no_zero_rows: "no_zero_rows (Tensor2 2 2 [[1, 0], [0, 1]])"
  by (simp add: no_zero_rows_def row_norm_def)

lemma cos_id2:
  "cos_sim [1, 0] [1, 0] = 1" "cos_sim [1, 0] [0, 1] = 0"
  "cos_sim [0, 1] [1, 0] = 0" "cos_sim [0, 1] [0, 1] = 1"
  by (simp_all add: cos_sim_def dot_def l2_normalize_def row_norm_def)

lemma cosine_matrix_id2:
  "cosine_matrix (Tensor2 2 2 [[1, 0], [0, 1]]) (Tensor2 2 2 [[1, 0], [0, 1]])
     = Tensor2 2 2 [[1, 0], [0, 1]]"
  by (simp add: cosine_matrix_def tabulate2_def upt_rec cos_id2)

lemma e1_shape: "has_shape2 (Tensor2 1 2 [[1, 0::real]]) 1 2"
  by (simp add: has_shape2_def wf2_def)

lemma e1_no_zero_rows: "no_zero_rows (Tensor2 1 2 [[1, 0]])"
  by (simp add: no_zero_rows_def row_norm_def)

lemma cosine_matrix_e1_id2:
  "cosine_matrix (Tensor2 1 2 [[1, 0]]) (Tensor2 2 2 [[1, 0], [0, 1]]) = Tensor2 1 2 [[1, 0]]"
  by (simp add: cosine_matrix_def tabulate2_def upt_rec cos_id2)

text \<open>
  Claim C1. For representation matrices \<open>first (n1, h)\<close> and \<open>second (n2, h)\<close> without
  zero-norm rows, \<^verbatim>\<open>margin_based_scoring\<close> forms the cosine-similarity matrix \<open>a\<close>; with
  variant \<open>absolute\<close> it returns \<open>a\<close> unchanged, whatever \<open>k\<close> and \<open>eps\<close>. Otherwise, for
  \<open>k \<ge> 1\<close>, \<open>n1 \<ge> 1\<close> and \<open>n2 \<ge> 1\<close>, the baseline \<open>b\<close> of entry \<open>(i, j)\<close> is the mean of
  the top \<open>min k n2\<close> values of row \<open>i\<close> of \<open>a\<close> plus the mean of the top \<open>min k n1\<close> values
  of column \<open>j\<close> of \<open>a\<close>, divided by 2, plus \<open>eps\<close>; the result is \<open>a - b\<close> for variant
  \<open>distance\<close>, and \<open>a / b\<close> for every other variant when no entry of \<open>b\<close> is zero.

  The hypotheses on the norms, on \<open>k\<close>, \<open>n1\<close>, \<open>n2\<close> and on the baseline are the inputs on
  which no division by zero and no mean over no values occurs, where torch yields NaN or
  an infinity and the real-valued model does not follow it.
\<close>

theorem margin_based_scoring_follows_spec:
  assumes f: "has_shape2 first n1 h" and s: "has_shape2 second n2 h"
    and zf: "no_zero_rows first" and zs: "no_zero_rows second"
  shows "cosine_similarity first second = Inr (cosine_matrix first second)
     \<and> margin_based_scoring first second k ''absolute'' eps = Inr (cosine_matrix first second)
     \<and> (1 \<le> k \<and> 1 \<le> n1 \<and> 1 \<le> n2 \<longrightarrow>
          margin_based_scoring first second k ''distance'' eps =
            Inr (tabulate2 n1 n2 (\<lambda>i j.
              at2 (cosine_matrix first second) i j
                - spec_baseline (cosine_matrix first second) (nat k) eps i j)))
     \<and> (1 \<le> k \<and> 1 \<le> n1 \<and> 1 \<le> n2 \<and> variant \<noteq> ''absolute'' \<and> variant \<noteq> ''distance''
          \<and> baseline_nonzero (cosine_matrix first second) (nat k) eps \<longrightarrow>
          margin_based_scoring first second k variant eps =
            Inr (tabulate2 n1 n2 (\<lambda>i j.
              at2 (cosine_matrix first second) i j
                / spec_baseline (cosine_matrix first second) (nat k) eps i j)))"
proof (intro conjI impI)
  show "cosine_similarity first second = Inr (cosine_matrix first second)"
    by (rule cosine_similarity_matrix(1) [OF f s])
  show "margin_based_scoring first second k ''absolute'' eps = Inr (cosine_matrix first second)"
    by (rule margin_based_scoring_absolute [OF f s])
next
  assume "1 \<le> k \<and> 1 \<le> n1 \<and> 1 \<le> n2"
  then have k: "0 \<le> k" by simp
  have "spec_margin_score (cosine_matrix first second) (nat k) ''distance'' eps
      = (\<lambda>i j. at2 (cosine_matrix first second) i j
                     - spec_baseline (cosine_matrix first second) (nat k) eps i j)"
    by (intro ext) (simp add: spec_margin_score_def)
  then show "margin_based_scoring first second k ''distance'' eps =
            Inr (tabulate2 n1 n2 (\<lambda>i j.
              at2 (cosine_matrix first second) i j
                - spec_baseline (cosine_matrix first second) (nat k) eps i j))"
    using margin_based_scoring_eq [OF f s k, of "''distance''" eps] by simp
next
  assume h: "1 \<le> k \<and> 1 \<le> n1 \<and> 1 \<le> n2 \<and> variant \<noteq> ''absolute'' \<and> variant \<noteq> ''distance''
          \<and> baseline_nonzero (cosine_matrix first second) (nat k) eps"
  then have k: "0 \<le> k" by simp
  have "spec_margin_score (cosine_matrix first second) (nat k) variant eps
      = (\<lambda>i j. at2 (cosine_matrix first second) i j
                     / spec_baseline (cosine_matrix first second) (nat k) eps i j)"
    using h by (intro ext) (simp add: spec_margin_score_def)
  then show "margin_based_scoring first second k variant eps =
            Inr (tabulate2 n1 n2 (\<lambda>i j.
              at2 (cosine_matrix first second) i j
                / spec_baseline (cosine_matrix first second) (nat k) eps i j))"
    using margin_based_scoring_eq [OF f s k, of variant eps] h by simp
qed

theorem margin_based_scoring_follows_spec_witness:
  "margin_based_scoring (Tensor2 2 2 [[1, 0], [0, 1]]) (Tensor2 2 2 [[1, 0], [0, 1]]) 2 ''absolute'' (3 / 2)
     = Inr (Tensor2 2 2 [[1, 0], [0, 1]])
   \<and> margin_based_scoring (Tensor2 2 2 [[1, 0], [0, 1]]) (Tensor2 2 2 [[1, 0], [0, 1]]) 2 ''distance'' (3 / 2)
     = Inr (Tensor2 2 2 [[- 1, - 2], [- 2, - 1]])
   \<and> margin_based_scoring (Tensor2 2 2 [[1, 0], [0, 1]]) (Tensor2 2 2 [[1, 0], [0, 1]]) 2 ''ratio'' (3 / 2)
     = Inr (Tensor2 2 2 [[1 / 2, 0], [0, 1 / 2]])"
  using margin_based_scoring_follows_spec
      [OF id2_shape id2_shape id2_no_zero_rows id2_no_zero_rows,
       where k = 2 and variant = "''ratio''" and eps = "3 / 2"]
  by (simp add: cosine_matrix_id2 spec_baseline_def baseline_nonzero_def mean_list_def
      topk_list_def column_def tabulate2_def upt_rec)

text \<open>
  Claim C7. For \<open>first (n1, h)\<close> and \<open>second (n2, h)\<close> with \<open>n1 \<ge> 1\<close>, \<open>n2 \<ge> 1\<close> and a
  positive \<open>k\<close>, \<^verbatim>\<open>margin_based_scoring\<close> does not raise, also when \<open>k\<close> exceeds \<open>n1\<close>
  or \<open>n2\<close>, and returns a score matrix of shape \<open>(n1, n2)\<close>. The row neighbourhood
  \<open>nn_k_row\<close> it selects has \<open>min k n2\<close> values per row and the column neighbourhood
  \<open>nn_k_col\<close> has \<open>min k n1\<close> values per column, both at least one; for a variant other
  than \<open>absolute\<close> the returned scores are computed from the means of exactly these two
  neighbourhoods (on inputs without zero-norm rows and, for the division, without a zero
  in the baseline, where the real-valued model is exact). The same selection with the
  unclamped \<open>k\<close> raises as soon as \<open>k\<close> exceeds \<open>n2\<close>, respectively \<open>n1\<close>.
\<close>

theorem margin_scoring_shrinks_neighbourhood:
  assumes f: "has_shape2 first n1 h" and s: "has_shape2 second n2 h"
    and n: "1 \<le> n1" "1 \<le> n2" and k: "1 \<le> k"
  shows "\<exists>a nn_k_row nn_k_col score.
       cosine_similarity first second = Inr a \<and>
       topk_values_dim1 a (min k (int (size1 a))) = Inr nn_k_row \<and>
       has_shape2 nn_k_row n1 (min (nat k) n2) \<and> 1 \<le> min (nat k) n2 \<and>
       topk_values_dim0 a (min k (int (size0 a))) = Inr nn_k_col \<and>
       has_shape2 nn_k_col (min (nat k) n1) n2 \<and> 1 \<le> min (nat k) n1 \<and>
       margin_based_scoring first second k variant eps = Inr score \<and>
       has_shape2 score n1 n2 \<and>
       (no_zero_rows first \<and> no_zero_rows second \<and> variant \<noteq> ''absolute'' \<and>
        (variant \<noteq> ''distance'' \<longrightarrow> baseline_nonzero a (nat k) eps) \<longrightarrow>
          score = tabulate2 n1 n2 (\<lambda>i j.
            let b = (mean_list (rows nn_k_row ! i) + mean_list (column nn_k_col j)) / 2 + eps
            in if variant = ''distance'' then at2 a i j - b else at2 a i j / b)) \<and>
       (int n2 < k \<longrightarrow> topk_values_dim1 a k = Inl RuntimeError) \<and>
       (int n1 < k \<longrightarrow> topk_values_dim0 a k = Inl RuntimeError)"
proof -
  have k0: "0 \<le> k" using k by simp
  define a where "a = cosine_matrix first second"
  note a = cosine_similarity_matrix [OF f s, folded a_def]
  note A = has_shape2D [OF a(2)]
  obtain nn_k_row nn_k_col where
    t: "topk_values_dim1 a (min k (int (size1 a))) = Inr nn_k_row"
       "has_shape2 nn_k_row n1 (min (nat k) n2)"
       "topk_values_dim0 a (min k (int (size0 a))) = Inr nn_k_col"
       "has_shape2 nn_k_col (min (nat k) n1) n2"
    and r: "\<And>i. i < n1 \<Longrightarrow> rows nn_k_row ! i = topk_list (min (nat k) n2) (rows a ! i)"
    and c: "\<And>j. j < n2 \<Longrightarrow> column nn_k_col j = topk_list (min (nat k) n1) (column a j)"
    using neighbourhood_tensors [OF a(2) k0] by blast
  have m: "1 \<le> min (nat k) n2" "1 \<le> min (nat k) n1" using n k by simp_all
  define score where "score = (if variant = ''absolute'' then a
          else tabulate2 n1 n2 (spec_margin_score a (nat k) variant eps))"
  have sc: "has_shape2 score n1 n2"
    using a(2) by (simp add: score_def has_shape2_def)
  have ms: "margin_based_scoring first second k variant eps = Inr score"
    using margin_based_scoring_eq [OF f s k0, of variant eps] by (simp add: score_def a_def)
  have e: "score = tabulate2 n1 n2 (\<lambda>i j.
            let b = (mean_list (rows nn_k_row ! i) + mean_list (column nn_k_col j)) / 2 + eps
            in if variant = ''distance'' then at2 a i j - b else at2 a i j / b)"
    if "variant \<noteq> ''absolute''"
  proof -
    have "tabulate2 n1 n2 (spec_margin_score a (nat k) variant eps) = tabulate2 n1 n2 (\<lambda>i j.
            let b = (mean_list (rows nn_k_row ! i) + mean_list (column nn_k_col j)) / 2 + eps
            in if variant = ''distance'' then at2 a i j - b else at2 a i j / b)"
      by (rule tabulate2_cong) (simp add: spec_margin_score_def spec_baseline_def A r c Let_def)
    then show ?thesis using that by (simp add: score_def)
  qed
  have raise: "int n2 < k \<longrightarrow> topk_values_dim1 a k = Inl RuntimeError"
    "int n1 < k \<longrightarrow> topk_values_dim0 a k = Inl RuntimeError"
    using topk_beyond_size_raises [of a k] A by simp_all
  from a(1) t m ms sc e raise show ?thesis by blast
qed

theorem margin_scoring_shrinks_neighbourhood_witness:
  "cosine_similarity (Tensor2 1 2 [[1, 0]]) (Tensor2 2 2 [[1, 0], [0, 1]]) = Inr (Tensor2 1 2 [[1, 0]])
   \<and> topk_values_dim1 (Tensor2 1 2 [[1, 0]]) (min 4 2) = Inr (Tensor2 1 2 [[1, 0]])
   \<and> topk_values_dim0 (Tensor2 1 2 [[1, 0]]) (min 4 1) = Inr (Tensor2 1 2 [[1, 0]])
   \<and> margin_based_scoring (Tensor2 1 2 [[1, 0]]) (Tensor2 2 2 [[1, 0], [0, 1]]) 4 ''distance'' (1 / 4)
       = Inr (Tensor2 1 2 [[0, - (1 / 2)]])
   \<and> topk_values_dim1 (Tensor2 1 2 [[1, 0]]) 4 = Inl RuntimeError
   \<and> topk_values_dim0 (Tensor2 1 2 [[1, 0]]) 4 = Inl RuntimeError"
proof -
  have n: "1 \<le> (1::nat)" "1 \<le> (2::nat)" and k: "(1::int) \<le> 4" by simp_all
  have cs: "cosine_similarity (Tensor2 1 2 [[1, 0]]) (Tensor2 2 2 [[1, 0], [0, 1]])
      = Inr (Tensor2 1 2 [[1, 0]])"
    using cosine_similarity_matrix(1) [OF e1_shape id2_shape] unfolding cosine_matrix_e1_id2 .
  have t1: "topk_values_dim1 (Tensor2 1 2 [[1, 0]]) 2 = Inr (Tensor2 1 2 [[1, 0]])"
    by (simp add: topk_values_dim1_def topk_list_def)
  have t0: "topk_values_dim0 (Tensor2 1 2 [[1, 0]]) 1 = Inr (Tensor2 1 2 [[1, 0]])"
    by (simp add: topk_values_dim0_def topk_list_def transpose_T_def tabulate2_def upt_rec)
  have z: "no_zero_rows (Tensor2 1 2 [[1, 0]]) \<and> no_zero_rows (Tensor2 2 2 [[1, 0], [0, 1]]) \<and>
      ''distance'' \<noteq> ''absolute'' \<and>
      (''distance'' \<noteq> ''distance'' \<longrightarrow> baseline_nonzero (Tensor2 1 2 [[1, 0]]) (nat 4) (1 / 4))"
    using e1_no_zero_rows id2_no_zero_rows by simp
  obtain a nn_k_row nn_k_col score where
    a: "cosine_similarity (Tensor2 1 2 [[1, 0]]) (Tensor2 2 2 [[1, 0], [0, 1]]) = Inr a"
    and r: "topk_values_dim1 a (min 4 (int (size1 a))) = Inr nn_k_row"
    and c: "topk_values_dim0 a (min 4 (int (size0 a))) = Inr nn_k_col"
    and m: "margin_based_scoring (Tensor2 1 2 [[1, 0]]) (Tensor2 2 2 [[1, 0], [0, 1]]) 4
        ''distance'' (1 / 4) = Inr score"
    and e: "no_zero_rows (Tensor2 1 2 [[1, 0]]) \<and> no_zero_rows (Tensor2 2 2 [[1, 0], [0, 1]]) \<and>
        ''distance'' \<noteq> ''absolute'' \<and>
        (''distance'' \<noteq> ''distance'' \<longrightarrow> baseline_nonzero a (nat 4) (1 / 4)) \<longrightarrow>
        score = tabulate2 1 2 (\<lambda>i j.
            let b = (mean_list (rows nn_k_row ! i) + mean_list (column nn_k_col j)) / 2 + 1 / 4
            in if ''distance'' = ''distance'' then at2 a i j - b else at2 a i j / b)"
    and x: "int 2 < 4 \<longrightarrow> topk_values_dim1 a 4 = Inl RuntimeError"
      "int 1 < 4 \<longrightarrow> topk_values_dim0 a 4 = Inl RuntimeError"
    using margin_scoring_shrinks_neighbourhood
        [OF e1_shape id2_shape n k, where variant = "''distance''" and eps = "1 / 4"]
    by blast
  have a': "a = Tensor2 1 2 [[1, 0]]" using a cs by simp
  have r': "nn_k_row = Tensor2 1 2 [[1, 0]]" using r t1 by (simp add: a')
  have c': "nn_k_col = Tensor2 1 2 [[1, 0]]" using c t0 by (simp add: a')
  have "score = Tensor2 1 2 [[0, - (1 / 2)]]"
    using e z by (simp add: a' r' c' mean_list_def column_def tabulate2_def upt_rec)
  with m cs t1 t0 x show ?thesis by (simp add: a')
qed

section \<open>Identical base and target sets\<close>

text \<open>
  The cosine similarity of a row with itself is 1 and no cosine similarity exceeds 1 in
  absolute value; the mean of the top one or two values of a row or column that holds the
  diagonal 1 is bounded accordingly.
\<close>

lemma sum_scaled_squares:
  "sum_list (map2 (*) (map (\<lambda>x. x / c) u) (map (\<lambda>x. x / c) u))
     = sum_list (map (\<lambda>x. x * x) u) / (c * c)" for c :: real
  by (induction u) (simp_all add: add_divide_distrib)

lemma row_norm_square: "row_norm u * row_norm u = sum_list (map (\<lambda>x. x * x) u)"
proof -
  have "0 \<le> sum_list (map (\<lambda>x. x * x) u)"
    by (rule sum_list_nonneg) auto
  then show ?thesis by (simp add: row_norm_def)
qed

lemma dot_normalize_self:
  assumes "row_norm u \<noteq> 0"
  shows "dot (l2_normalize u) (l2_normalize u) = 1"
  using assms
  by (simp add: dot_def l2_normalize_def sum_scaled_squares row_norm_square [symmetric])

lemma dot_upper:
  "length p = length q \<Longrightarrow> 2 * dot p q \<le> dot p p + dot q q"
proof (induction p q rule: list_induct2)
  case Nil
  then show ?case by (simp add: dot_def)
next
  case (Cons x xs y ys)
  have "0 \<le> (x - y) * (x - y)" by simp
  then have "2 * (x * y) \<le> x * x + y * y" by (simp add: algebra_simps)
  with Cons.IH show ?case by (simp add: dot_def algebra_simps)
qed

lemma dot_lower:
  "length p = length q \<Longrightarrow> - (dot p p + dot q q) \<le> 2 * dot p q"
proof (induction p q rule: list_induct2)
  case Nil
  then show ?case by (simp add: dot_def)
next
  case (Cons x xs y ys)
  have "0 \<le> (x + y) * (x + y)" by simp
  then have "- (x * x + y * y) \<le> 2 * (x * y)" by (simp add: algebra_simps)
  with Cons.IH show ?case by (simp add: dot_def algebra_simps)
qed

lemma cos_sim_self: "row_norm u \<noteq> 0 \<Longrightarrow> cos_sim u u = 1"
  by (simp add: cos_sim_def dot_normalize_self)

lemma cos_sim_bounds:
  assumes "length u = length v" "row_norm u \<noteq> 0" "row_norm v \<noteq> 0"
  shows "cos_sim u v \<le> 1" "- 1 \<le> cos_sim u v"
proof -
  have l: "length (l2_normalize u) = length (l2_normalize v)"
    using assms(1) by (simp add: l2_normalize_def)
  from dot_upper [OF l] dot_lower [OF l] assms(2,3)
  show "cos_sim u v \<le> 1" "- 1 \<le> cos_sim u v"
    by (simp_all add: cos_sim_def dot_normalize_self)
qed

lemma sum_take_shift:
  fixes y :: real
  assumes s: "sorted_wrt (\<ge>) (y # ys)" and k: "k \<le> length ys"
  shows "sum_list (take k ys) \<le> sum_list (take k (y # ys))"
proof (rule sum_list_mono2)
  show "length (take k ys) = length (take k (y # ys))" using k by simp
  show "i < length (take k ys) \<longrightarrow> take k ys ! i \<le> take k (y # ys) ! i" for i
  proof
    assume "i < length (take k ys)"
    then have i: "i < k" "i < length ys" by simp_all
    have "(y # ys) ! Suc i \<le> (y # ys) ! i"
      using sorted_wrt_nth_less [OF s, of i "Suc i"] i(2) by simp
    then show "take k ys ! i \<le> take k (y # ys) ! i" using i by simp
  qed
qed

lemma sum_take_sorted_ge:
  fixes ys :: "real list"
  shows "sorted_wrt (\<ge>) ys \<Longrightarrow> M \<subseteq># mset ys \<Longrightarrow> sum_mset M \<le> sum_list (take (size M) ys)"
proof (induction ys arbitrary: M)
  case Nil
  then show ?case by simp
next
  case (Cons y ys)
  have sorted: "sorted_wrt (\<ge>) ys" using Cons.prems(1) by simp
  show ?case
  proof (cases "y \<in># M")
    case True
    define M' where "M' = M - {#y#}"
    have M: "M = add_mset y M'" using True by (simp add: M'_def)
    have "M' \<subseteq># mset ys" using Cons.prems(2) unfolding M by simp
    from Cons.IH [OF sorted this] show ?thesis by (simp add: M)
  next
    case False
    have "M \<subseteq># add_mset y (mset ys)" using Cons.prems(2) by simp
    with False have sub: "M \<subseteq># mset ys"
      by (metis Diff_eq_empty_iff_mset minus_add_mset_if_not_in_lhs)
    have k: "size M \<le> length ys" using size_mset_mono [OF sub] by simp
    from Cons.IH [OF sorted sub] sum_take_shift [OF Cons.prems(1) k]
    show ?thesis by linarith
  qed
qed

lemma pair_submultiset_lt:
  assumes pq: "p < q" and q: "q < length xs"
  shows "{#xs ! p, xs ! q#} \<subseteq># mset xs"
proof -
  have "take q xs ! p \<in> set (take q xs)" using pq q by (intro nth_mem) simp
  then have m: "xs ! p \<in># mset (take q xs)" using pq by simp
  have "xs = take q xs @ xs ! q # drop (Suc q) xs" using q by (rule id_take_nth_drop)
  then have "mset xs = mset (take q xs) + add_mset (xs ! q) (mset (drop (Suc q) xs))"
    by (metis mset_append mset.simps(2))
  with m show ?thesis by simp
qed

lemma pair_submultiset:
  assumes "p < length xs" "q < length xs" "p \<noteq> q"
  shows "{#xs ! p, xs ! q#} \<subseteq># mset xs"
proof (cases "p < q")
  case True
  then show ?thesis using assms(2) by (rule pair_submultiset_lt)
next
  case False
  then have "q < p" using assms(3) by simp
  from pair_submultiset_lt [OF this assms(1)] show ?thesis by (simp add: add_mset_commute)
qed

lemma topk_sorted: "sorted_wrt (\<ge>) (rev (sort xs))" for xs :: "real list"
  by (simp add: sorted_wrt_rev)

lemma topk_sum_ge:
  assumes "M \<subseteq># mset xs"
  shows "sum_mset M \<le> sum_list (topk_list (size M) xs)"
  using sum_take_sorted_ge [OF topk_sorted, of M xs] assms by (simp add: topk_list_def)

lemma sum_list_upper: "(\<forall>x\<in>set zs. x \<le> c) \<Longrightarrow> sum_list zs \<le> real (length zs) * c" for c :: real
  by (induction zs) (simp_all add: algebra_simps)

lemma sum_list_lower: "(\<forall>x\<in>set zs. c \<le> x) \<Longrightarrow> real (length zs) * c \<le> sum_list zs" for c :: real
  by (induction zs) (simp_all add: algebra_simps)

lemma set_topk_list: "set (topk_list k xs) \<subseteq> set xs"
  using set_take_subset [of k "rev (sort xs)"] by (simp add: topk_list_def)

lemma topk_mean_upper:
  assumes "\<forall>x\<in>set xs. x \<le> c" "1 \<le> k" "k \<le> length xs"
  shows "mean_list (topk_list k xs) \<le> c"
proof -
  have l: "length (topk_list k xs) = k" using assms(3) by (rule length_topk_list)
  have "\<forall>x\<in>set (topk_list k xs). x \<le> c" using assms(1) set_topk_list [of k xs] by blast
  from sum_list_upper [OF this] have "sum_list (topk_list k xs) \<le> real k * c" by (simp add: l)
  then show ?thesis using assms(2) by (simp add: mean_list_def l field_simps)
qed

lemma topk_mean_lower:
  assumes "\<forall>x\<in>set xs. c \<le> x" "1 \<le> k" "k \<le> length xs"
  shows "c \<le> mean_list (topk_list k xs)"
proof -
  have l: "length (topk_list k xs) = k" using assms(3) by (rule length_topk_list)
  have "\<forall>x\<in>set (topk_list k xs). c \<le> x" using assms(1) set_topk_list [of k xs] by blast
  from sum_list_lower [OF this] have "real k * c \<le> sum_list (topk_list k xs)" by (simp add: l)
  then show ?thesis using assms(2) by (simp add: mean_list_def l field_simps)
qed

text \<open>the mean of the top one or two values of a list that holds a 1 and another entry\<close>

lemma top12_mean_ge:
  assumes k: "k = 1 \<or> k = 2" and kl: "k \<le> length xs"
    and p: "p < length xs" and q: "q < length xs" and pq: "p \<noteq> q"
    and one: "xs ! p = 1" and le: "xs ! q \<le> 1"
  shows "(1 + xs ! q) / 2 \<le> mean_list (topk_list k xs)"
proof -
  have l: "length (topk_list k xs) = k" using kl by (rule length_topk_list)
  from k show ?thesis
  proof
    assume k1: "k = 1"
    have "{#xs ! p#} \<subseteq># mset xs" using p by simp
    from topk_sum_ge [OF this] have "1 \<le> sum_list (topk_list k xs)" by (simp add: one k1)
    then show ?thesis using le l by (simp add: mean_list_def k1)
  next
    assume k2: "k = 2"
    from topk_sum_ge [OF pair_submultiset [OF p q pq]]
    have "1 + xs ! q \<le> sum_list (topk_list k xs)" by (simp add: one k2 numeral_2_eq_2)
    then show ?thesis using l by (simp add: mean_list_def k2)
  qed
qed

lemma strict_max_argmax:
  assumes i: "i < length r" and m: "\<forall>j<length r. j \<noteq> i \<longrightarrow> r ! j < r ! i"
  shows "argmax_list r = i"
proof (rule ccontr)
  assume ne: "argmax_list r \<noteq> i"
  have "r \<noteq> []" using i by auto
  from argmax_list_first [OF this]
  have p: "argmax_list r < length r" and le: "\<forall>x\<in>set r. x \<le> r ! argmax_list r"
    by (simp_all add: is_first_argmax_def list_all_iff)
  from le i have "r ! i \<le> r ! argmax_list r" by simp
  moreover from m p ne have "r ! argmax_list r < r ! i" by simp
  ultimately show False by simp
qed

lemma strict_diagonal_accuracy:
  assumes s: "has_shape2 s n n" and n: "1 \<le> n"
    and d: "\<And>i j. i < n \<Longrightarrow> j < n \<Longrightarrow> j \<noteq> i \<Longrightarrow> at2 s i j < at2 s i i"
  shows "argmax_dim1 s = Inr [0..<n]" and "layer_accuracy s = Inr 1"
proof -
  note S = has_shape2D [OF s]
  have am: "argmax_list (rows s ! i) = i" if "i < n" for i
    using that S(4) [OF that] d [OF that] by (intro strict_max_argmax) (simp_all add: at2_def)
  have "map argmax_list (rows s) = [0..<n]"
    using S(3) am by (intro nth_equalityI) simp_all
  then show "argmax_dim1 s = Inr [0..<n]"
    using n by (simp add: argmax_dim1_def S)
  have "filter (\<lambda>i. argmax_list (rows s ! i) = i) [0..<n] = [0..<n]"
    using am by (simp add: filter_id_conv)
  then show "layer_accuracy s = Inr 1"
    using layer_accuracy_value [of s] n by (simp add: S)
qed

lemma cosine_matrix_self:
  assumes X: "has_shape2 X n h" and z: "no_zero_rows X"
  shows "has_shape2 (cosine_matrix X X) n n"
    and "\<And>i. i < n \<Longrightarrow> at2 (cosine_matrix X X) i i = 1"
    and "\<And>i j. i < n \<Longrightarrow> j < n \<Longrightarrow> at2 (cosine_matrix X X) i j \<le> 1"
    and "\<And>i j. i < n \<Longrightarrow> j < n \<Longrightarrow> - 1 \<le> at2 (cosine_matrix X X) i j"
proof -
  note S = has_shape2D [OF X]
  have nz: "row_norm (rows X ! i) \<noteq> 0" if "i < n" for i
    using z that S(3) by (simp add: no_zero_rows_def list_all_length)
  have e: "at2 (cosine_matrix X X) i j = cos_sim (rows X ! i) (rows X ! j)"
    if "i < n" "j < n" for i j
    using that by (simp add: cosine_matrix_def S)
  show "has_shape2 (cosine_matrix X X) n n" by (rule cosine_similarity_matrix(2) [OF X X])
  show "at2 (cosine_matrix X X) i i = 1" if "i < n" for i
    using that by (simp add: e cos_sim_self nz)
  show "at2 (cosine_matrix X X) i j \<le> 1" if "i < n" "j < n" for i j
    using that cos_sim_bounds(1) [of "rows X ! i" "rows X ! j"] by (simp add: e nz S(4))
  show "- 1 \<le> at2 (cosine_matrix X X) i j" if "i < n" "j < n" for i j
    using that cos_sim_bounds(2) [of "rows X ! i" "rows X ! j"] by (simp add: e nz S(4))
qed

lemma no_ties_off_diagonal:
  assumes a: "has_shape2 a n n" and t: "no_ties a" and i: "i < n" and j: "j < n" and ne: "j \<noteq> i"
  shows "at2 a i j \<noteq> at2 a i i"
proof -
  note S = has_shape2D [OF a]
  have "distinct (rows a ! i)" using t i S(3) by (simp add: no_ties_def list_all_length)
  then show ?thesis using i j ne S(4) [OF i] by (simp add: at2_def nth_eq_iff_index_eq)
qed

lemma top12_mean_nonneg:
  assumes k: "k = 1 \<or> k = 2" and kl: "k \<le> length xs"
    and p: "p < length xs" and one: "xs ! p = 1"
    and b: "\<forall>x\<in>set xs. - 1 \<le> x \<and> x \<le> 1"
  shows "0 \<le> mean_list (topk_list k xs)"
proof -
  from k show ?thesis
  proof
    assume k1: "k = 1"
    have l: "length (topk_list k xs) = k" using kl by (rule length_topk_list)
    have "{#xs ! p#} \<subseteq># mset xs" using p by simp
    from topk_sum_ge [OF this] have "1 \<le> sum_list (topk_list k xs)" by (simp add: one k1)
    then show ?thesis using l by (simp add: mean_list_def k1)
  next
    assume k2: "k = 2"
    define q where "q = (if p = 0 then 1 else (0::nat))"
    have q: "q < length xs" "p \<noteq> q" using kl k2 by (auto simp: q_def)
    have "xs ! q \<in> set xs" using q(1) by simp
    with b have qb: "- 1 \<le> xs ! q" "xs ! q \<le> 1" by simp_all
    from top12_mean_ge [OF k kl p q(1) q(2) one qb(2)] qb(1) show ?thesis by simp
  qed
qed

text \<open>the entries of a self-similarity matrix and the two neighbourhood means\<close>

lemma self_similarity_means:
  assumes a: "has_shape2 a n n"
    and d0: "\<forall>i<n. at2 a i i = 1"
    and u0: "\<forall>i<n. \<forall>j<n. at2 a i j \<le> 1"
    and l0: "\<forall>i<n. \<forall>j<n. - 1 \<le> at2 a i j"
    and k: "k = 1 \<or> k = 2" and n: "1 \<le> n"
  shows "\<And>i. i < n \<Longrightarrow> mean_list (topk_list (min k n) (rows a ! i)) \<le> 1"
    and "\<And>j. j < n \<Longrightarrow> mean_list (topk_list (min k n) (column a j)) \<le> 1"
    and "\<And>i. i < n \<Longrightarrow> 0 \<le> mean_list (topk_list (min k n) (rows a ! i))"
    and "\<And>j. j < n \<Longrightarrow> 0 \<le> mean_list (topk_list (min k n) (column a j))"
    and "\<And>i j. i < n \<Longrightarrow> j < n \<Longrightarrow> j \<noteq> i \<Longrightarrow>
           (1 + at2 a i j) / 2 \<le> mean_list (topk_list (min k n) (rows a ! i))"
    and "\<And>i j. i < n \<Longrightarrow> j < n \<Longrightarrow> j \<noteq> i \<Longrightarrow>
           (1 + at2 a i j) / 2 \<le> mean_list (topk_list (min k n) (column a j))"
proof -
  note S = has_shape2D [OF a]
  have d: "at2 a i i = 1" if "i < n" for i using d0 that by simp
  have u: "at2 a i j \<le> 1" if "i < n" "j < n" for i j using u0 that by simp
  have l: "- 1 \<le> at2 a i j" if "i < n" "j < n" for i j using l0 that by simp
  define k' where "k' = min k n"
  have k': "k' = 1 \<or> k' = 2" "1 \<le> k'" "k' \<le> n" using k n by (auto simp: k'_def)
  have rl: "length (rows a ! i) = n" if "i < n" for i using that by (rule S(4))
  have rn: "rows a ! i ! j = at2 a i j" for i j by (simp add: at2_def)
  have cl: "length (column a j) = n" for j by (rule length_column [OF a])
  have cn: "column a j ! i = at2 a i j" if "i < n" for i j
    using that S(3) by (simp add: column_def at2_def)
  have rb: "\<forall>x\<in>set (rows a ! i). - 1 \<le> x \<and> x \<le> 1" if i: "i < n" for i
    using u [OF i] l [OF i] by (auto simp: in_set_conv_nth rl [OF i] rn)
  have cb: "\<forall>x\<in>set (column a j). - 1 \<le> x \<and> x \<le> 1" if j: "j < n" for j
    using u [OF _ j] l [OF _ j] by (auto simp: in_set_conv_nth cl cn)
  show "mean_list (topk_list (min k n) (rows a ! i)) \<le> 1" if i: "i < n" for i
    using topk_mean_upper [of "rows a ! i" 1 k'] rb [OF i] k' by (simp add: rl [OF i] k'_def)
  show "mean_list (topk_list (min k n) (column a j)) \<le> 1" if j: "j < n" for j
    using topk_mean_upper [of "column a j" 1 k'] cb [OF j] k' by (simp add: cl k'_def)
  show "0 \<le> mean_list (topk_list (min k n) (rows a ! i))" if i: "i < n" for i
    using top12_mean_nonneg [of k' "rows a ! i" i] rb [OF i] k' i
    by (simp add: rl [OF i] rn d k'_def)
  show "0 \<le> mean_list (topk_list (min k n) (column a j))" if j: "j < n" for j
    using top12_mean_nonneg [of k' "column a j" j] cb [OF j] k' j
    by (simp add: cl cn d k'_def)
  show "(1 + at2 a i j) / 2 \<le> mean_list (topk_list (min k n) (rows a ! i))"
    if i: "i < n" and j: "j < n" and ne: "j \<noteq> i" for i j
    using top12_mean_ge [of k' "rows a ! i" i j] k' i j ne u [OF i j]
    by (simp add: rl [OF i] rn d k'_def)
  show "(1 + at2 a i j) / 2 \<le> mean_list (topk_list (min k n) (column a j))"
    if i: "i < n" and j: "j < n" and ne: "j \<noteq> i" for i j
    using top12_mean_ge [of k' "column a j" j i] k' i j ne u [OF i j]
    by (simp add: cl cn d k'_def)
qed

lemma distance_prefers_diagonal:
  fixes x Ri Ci Cj eps :: real
  assumes "x < 1" "Ci \<le> 1" "(1 + x) / 2 \<le> Cj"
  shows "x - ((Ri + Cj) / 2 + eps) < 1 - ((Ri + Ci) / 2 + eps)"
proof -
  have "(Ci - Cj) / 2 \<le> (1 - x) / 4" using assms(2,3) by (simp add: field_simps)
  also have "\<dots> < 1 - x" using assms(1) by simp
  finally have "(Ci - Cj) / 2 < 1 - x" .
  then show ?thesis by (simp add: field_simps)
qed

lemma ratio_prefers_diagonal:
  fixes x Ri Ci Cj eps :: real
  assumes x: "x < 1" and Ci: "Ci \<le> 1" "0 \<le> Ci" and Cj: "(1 + x) / 2 \<le> Cj" "0 \<le> Cj"
    and Ri: "0 \<le> Ri" and eps: "0 < eps"
  shows "x / ((Ri + Cj) / 2 + eps) < 1 / ((Ri + Ci) / 2 + eps)"
proof -
  define bij where "bij = (Ri + Cj) / 2 + eps"
  define bii where "bii = (Ri + Ci) / 2 + eps"
  have pos: "0 < bij" "0 < bii" using Ci Cj Ri eps by (simp_all add: bij_def bii_def add_nonneg_pos)
  have "x * bii < bij"
  proof (cases "x \<le> 0")
    case True
    then have "x * bii \<le> 0" using pos(2) by (simp add: mult_nonpos_nonneg)
    with pos(1) show ?thesis by simp
  next
    case False
    then have x0: "0 < x" by simp
    have "bii \<le> (Ri + 1) / 2 + eps" using Ci(1) by (simp add: bii_def)
    then have "x * bii \<le> x * ((Ri + 1) / 2 + eps)" using x0 by simp
    also have "\<dots> = ((Ri + (1 + x) / 2) / 2 + eps) - (1 - x) * (Ri / 2 + 1 / 4 + eps)"
      by (simp add: field_simps)
    also have "\<dots> < (Ri + (1 + x) / 2) / 2 + eps"
    proof -
      have "0 < (1 - x) * (Ri / 2 + 1 / 4 + eps)"
        using x Ri eps by (intro mult_pos_pos) simp_all
      then show ?thesis by simp
    qed
    also have "\<dots> \<le> bij" using Cj(1) by (simp add: bij_def)
    finally show ?thesis .
  qed
  then have "x / bij < 1 / bii" using pos by (simp add: field_simps)
  then show ?thesis by (simp add: bij_def bii_def)
qed

text \<open>The three unit vectors \<open>three_words\<close>: cosine matrix and scores.\<close>

lemma three_words_shape: "has_shape2 three_words 3 2"
  by (simp add: three_words_def has_shape2_def wf2_def)

lemma three_words_norms:
  "row_norm [1, 0] = 1" "row_norm [40 / 41, 9 / 41] = 1" "row_norm [0, - 1] = 1"
  by (simp_all add: row_norm_def)

lemma three_words_cosine:
  "cosine_matrix three_words three_words
     = Tensor2 3 3 [[1, 40 / 41, 0], [40 / 41, 1, - (9 / 41)], [0, - (9 / 41), 1]]"
  by (simp add: cosine_matrix_def three_words_def tabulate2_def upt_rec
      cos_sim_def dot_def l2_normalize_def three_words_norms)

lemma three_words_distance_score:
  "margin_based_scoring three_words three_words 4 ''distance'' (1 / 1000000)
     = Inr (Tensor2 3 3
         [[14 / 41 - 1 / 1000000, 29 / 82 - 1 / 1000000, - (113 / 246) - 1 / 1000000],
          [29 / 82 - 1 / 1000000, 17 / 41 - 1 / 1000000, - (79 / 123) - 1 / 1000000],
          [- (113 / 246) - 1 / 1000000, - (79 / 123) - 1 / 1000000, 91 / 123 - 1 / 1000000]])"
  using margin_based_scoring_eq [OF three_words_shape three_words_shape, of 4 "''distance''" "1 / 1000000"]
  by (simp add: three_words_cosine spec_margin_score_def spec_baseline_def mean_list_def
      topk_list_def column_def tabulate2_def upt_rec)

lemma three_words_ratio_score:
  "margin_based_scoring three_words three_words 4 ''ratio'' (1 / 1000000)
     = Inr (Tensor2 3 3
         [[1 / (27 / 41 + 1 / 1000000), (40 / 41) / (51 / 82 + 1 / 1000000), 0],
          [(40 / 41) / (51 / 82 + 1 / 1000000), 1 / (24 / 41 + 1 / 1000000),
           - (9 / 41) / (52 / 123 + 1 / 1000000)],
          [0, - (9 / 41) / (52 / 123 + 1 / 1000000), 1 / (32 / 123 + 1 / 1000000)]])"
  using margin_based_scoring_eq [OF three_words_shape three_words_shape, of 4 "''ratio''" "1 / 1000000"]
  by (simp add: three_words_cosine spec_margin_score_def spec_baseline_def mean_list_def
      topk_list_def column_def tabulate2_def upt_rec)

lemma three_words_no_zero_rows: "no_zero_rows three_words"
  by (simp add: three_words_def no_zero_rows_def three_words_norms)

lemma three_words_no_ties: "no_ties (cosine_matrix three_words three_words)"
  by (simp add: three_words_cosine no_ties_def)

lemma three_words_distance_score_2:
  "margin_based_scoring three_words three_words 2 ''distance'' (1 / 1000000)
     = Inr (Tensor2 3 3
         [[1 / 82 - 1 / 1000000, - (1 / 82) - 1 / 1000000, - (61 / 82) - 1 / 1000000],
          [- (1 / 82) - 1 / 1000000, 1 / 82 - 1 / 1000000, - (79 / 82) - 1 / 1000000],
          [- (61 / 82) - 1 / 1000000, - (79 / 82) - 1 / 1000000, 1 / 2 - 1 / 1000000]])"
  using margin_based_scoring_eq [OF three_words_shape three_words_shape, of 2 "''distance''" "1 / 1000000"]
  by (simp add: three_words_cosine spec_margin_score_def spec_baseline_def mean_list_def
      topk_list_def column_def tabulate2_def upt_rec)

text \<open>
  Claim C2, amended. For every representation matrix with at least one row, no zero-norm
  row and no ties in the rows of its cosine-similarity matrix (so no two rows are equal
  or positive multiples of each other), \<^verbatim>\<open>margin_based_scoring\<close> applied with \<open>first\<close>
  equal to \<open>second\<close> returns a score matrix whose row-wise argmax is the row index for
  every row, so that \<^verbatim>\<open>layer_accuracy\<close> returns 1, under variant \<open>absolute\<close> for every
  \<open>k\<close>, and under the other variants when the neighbourhood \<open>min k n\<close> has one or two
  values (\<open>k \<ge> 1\<close>, and \<open>k \<le> 2\<close> or at most two rows): under \<open>distance\<close> for every \<open>eps\<close>,
  under \<open>ratio\<close> and every other tag for a positive \<open>eps\<close>, where no entry of the
  baseline is zero. For a neighbourhood of three values (the default \<open>k = 4\<close> on three
  rows) the claim does not hold, as the evaluation after the theorem shows.
\<close>

theorem identical_sets_retrieve_every_row:
  assumes X: "has_shape2 X n h" and n: "1 \<le> n" and z: "no_zero_rows X"
    and t: "no_ties (cosine_matrix X X)"
    and v: "variant = ''absolute'' \<or>
            (1 \<le> k \<and> (k \<le> 2 \<or> n \<le> 2) \<and> (variant = ''distance'' \<or> 0 < eps))"
  shows "(\<exists>score. margin_based_scoring X X k variant eps = Inr score \<and>
            has_shape2 score n n \<and>
            argmax_dim1 score = Inr [0..<n] \<and>
            layer_accuracy score = Inr 1)
       \<and> (variant \<noteq> ''absolute'' \<and> variant \<noteq> ''distance'' \<longrightarrow>
            baseline_nonzero (cosine_matrix X X) (nat k) eps)"
proof -
  define a where "a = cosine_matrix X X"
  note A = cosine_matrix_self [OF X z, folded a_def]
  note S = has_shape2D [OF A(1)]
  have off: "at2 a i j < 1" if "i < n" "j < n" "j \<noteq> i" for i j
    using no_ties_off_diagonal [OF A(1) t [folded a_def] that] A(2) [OF that(1)] A(3) [OF that(1,2)]
    by simp
  show ?thesis
  proof (cases "variant = ''absolute''")
    case True
    have m: "margin_based_scoring X X k variant eps = Inr a"
      unfolding True a_def by (rule margin_based_scoring_absolute [OF X X])
    have d: "at2 a i j < at2 a i i" if "i < n" "j < n" "j \<noteq> i" for i j
      using off [OF that] A(2) [OF that(1)] by simp
    from m A(1) strict_diagonal_accuracy [OF A(1) n d] True show ?thesis by blast
  next
    case False
    with v have k: "1 \<le> k" "k \<le> 2 \<or> n \<le> 2" and e: "variant = ''distance'' \<or> 0 < eps"
      by simp_all
    have k0: "0 \<le> k" using k(1) by simp
    define k' where "k' = min (nat k) n"
    have nk: "k' = 1 \<or> k' = 2" using k n unfolding k'_def by linarith
    have m: "min k' n = k'" by (simp add: k'_def)
    have A0: "\<forall>i<n. at2 a i i = 1" "\<forall>i<n. \<forall>j<n. at2 a i j \<le> 1"
      "\<forall>i<n. \<forall>j<n. - 1 \<le> at2 a i j"
      using A(2,3,4) by simp_all
    note M = self_similarity_means [OF A(1) A0 nk n, unfolded m]
    define R where "R i = mean_list (topk_list k' (rows a ! i))" for i
    define C where "C j = mean_list (topk_list k' (column a j))" for j
    note M' = M [folded R_def C_def]
    have b: "spec_baseline a (nat k) eps i j = (R i + C j) / 2 + eps" for i j
      by (simp add: spec_baseline_def S R_def C_def k'_def)
    define score where "score = tabulate2 n n (spec_margin_score a (nat k) variant eps)"
    have m: "margin_based_scoring X X k variant eps = Inr score"
      using margin_based_scoring_eq [OF X X k0, of variant eps] False
      by (simp add: score_def a_def)
    have sh: "has_shape2 score n n" by (simp add: score_def has_shape2_def)
    have d: "at2 score i j < at2 score i i" if i: "i < n" and j: "j < n" and ne: "j \<noteq> i" for i j
    proof (cases "variant = ''distance''")
      case True
      have "at2 a i j - ((R i + C j) / 2 + eps) < 1 - ((R i + C i) / 2 + eps)"
        using off [OF i j ne] M'(2) [OF i] M'(6) [OF i j ne] by (rule distance_prefers_diagonal)
      then show ?thesis
        using i j True by (simp add: score_def spec_margin_score_def b A(2))
    next
      case nd: False
      with e have eps: "0 < eps" by simp
      have "at2 a i j / ((R i + C j) / 2 + eps) < 1 / ((R i + C i) / 2 + eps)"
        using off [OF i j ne] M'(2) [OF i] M'(4) [OF i] M'(6) [OF i j ne] M'(4) [OF j]
          M'(3) [OF i] eps
        by (rule ratio_prefers_diagonal)
      then show ?thesis
        using i j nd by (simp add: score_def spec_margin_score_def b A(2))
    qed
    have bn: "baseline_nonzero a (nat k) eps" if "variant \<noteq> ''distance''"
    proof -
      from that e have eps: "0 < eps" by simp
      have "spec_baseline a (nat k) eps i j \<noteq> 0" if "i < n" "j < n" for i j
      proof -
        have "0 < (R i + C j) / 2 + eps"
          using M'(3) [OF that(1)] M'(4) [OF that(2)] eps by (intro add_nonneg_pos) simp_all
        then show ?thesis by (simp add: b)
      qed
      then show ?thesis by (simp add: baseline_nonzero_def S list_all_iff)
    qed
    from m sh strict_diagonal_accuracy [OF sh n d] bn show ?thesis
      unfolding a_def by blast
  qed
qed

theorem identical_sets_retrieve_every_row_witness:
  "margin_based_scoring three_words three_words 2 ''distance'' (1 / 1000000)
     = Inr (Tensor2 3 3
         [[1 / 82 - 1 / 1000000, - (1 / 82) - 1 / 1000000, - (61 / 82) - 1 / 1000000],
          [- (1 / 82) - 1 / 1000000, 1 / 82 - 1 / 1000000, - (79 / 82) - 1 / 1000000],
          [- (61 / 82) - 1 / 1000000, - (79 / 82) - 1 / 1000000, 1 / 2 - 1 / 1000000]])
   \<and> argmax_dim1 (Tensor2 3 3
         [[1 / 82 - 1 / 1000000, - (1 / 82) - 1 / 1000000, - (61 / 82) - 1 / 1000000],
          [- (1 / 82) - 1 / 1000000, 1 / 82 - 1 / 1000000, - (79 / 82) - 1 / 1000000],
          [- (61 / 82) - 1 / 1000000, - (79 / 82) - 1 / 1000000, 1 / 2 - 1 / 1000000]])
     = Inr [0, 1, 2]
   \<and> layer_accuracy (Tensor2 3 3
         [[1 / 82 - 1 / 1000000, - (1 / 82) - 1 / 1000000, - (61 / 82) - 1 / 1000000],
          [- (1 / 82) - 1 / 1000000, 1 / 82 - 1 / 1000000, - (79 / 82) - 1 / 1000000],
          [- (61 / 82) - 1 / 1000000, - (79 / 82) - 1 / 1000000, 1 / 2 - 1 / 1000000]])
     = Inr 1"
proof -
  have n: "1 \<le> (3::nat)" by simp
  have v: "''distance'' = ''absolute'' \<or>
      ((1::int) \<le> 2 \<and> ((2::int) \<le> 2 \<or> (3::nat) \<le> 2) \<and>
       (''distance'' = ''distance'' \<or> (0::real) < 1 / 1000000))"
    by simp
  show ?thesis
    using identical_sets_retrieve_every_row
        [OF three_words_shape n three_words_no_zero_rows three_words_no_ties v]
    by (simp add: three_words_distance_score_2 upt_rec)
qed

text \<open>
  With the default \<open>k = 4\<close> and \<open>eps = 1e-6\<close> the three rows \<open>three_words\<close> (unit norm,
  pairwise different, no ties in the cosine matrix nor in the scores) are scored against
  themselves so that row 0 prefers column 1: words 0 and 1 are close to each other and
  far from word 2, so the neighbourhood mean of word 0 (27/41) exceeds that of word 1
  (24/41), and the distance score \<open>40/41 - 51/82\<close> of the pair \<open>(0, 1)\<close> exceeds the
  score \<open>1 - 27/41\<close> of the pair \<open>(0, 0)\<close>. The accuracy is 2/3, for the variant
  \<open>distance\<close> and for the default variant \<open>ratio\<close>.
\<close>

theorem identical_sets_misranked_at_default_k:
  "no_zero_rows three_words \<and> distinct (rows three_words)
   \<and> no_ties (cosine_matrix three_words three_words)
   \<and> margin_based_scoring three_words three_words 4 ''distance'' (1 / 1000000)
     = Inr (Tensor2 3 3
         [[14 / 41 - 1 / 1000000, 29 / 82 - 1 / 1000000, - (113 / 246) - 1 / 1000000],
          [29 / 82 - 1 / 1000000, 17 / 41 - 1 / 1000000, - (79 / 123) - 1 / 1000000],
          [- (113 / 246) - 1 / 1000000, - (79 / 123) - 1 / 1000000, 91 / 123 - 1 / 1000000]])
   \<and> no_ties (Tensor2 3 3
         [[14 / 41 - 1 / 1000000, 29 / 82 - 1 / 1000000, - (113 / 246) - 1 / 1000000],
          [29 / 82 - 1 / 1000000, 17 / 41 - 1 / 1000000, - (79 / 123) - 1 / 1000000],
          [- (113 / 246) - 1 / 1000000, - (79 / 123) - 1 / 1000000, 91 / 123 - 1 / 1000000]])
   \<and> argmax_dim1 (Tensor2 3 3
         [[14 / 41 - 1 / 1000000, 29 / 82 - 1 / 1000000, - (113 / 246) - 1 / 1000000],
          [29 / 82 - 1 / 1000000, 17 / 41 - 1 / 1000000, - (79 / 123) - 1 / 1000000],
          [- (113 / 246) - 1 / 1000000, - (79 / 123) - 1 / 1000000, 91 / 123 - 1 / 1000000]])
     = Inr [1, 1, 2]
   \<and> layer_accuracy (Tensor2 3 3
         [[14 / 41 - 1 / 1000000, 29 / 82 - 1 / 1000000, - (113 / 246) - 1 / 1000000],
          [29 / 82 - 1 / 1000000, 17 / 41 - 1 / 1000000, - (79 / 123) - 1 / 1000000],
          [- (113 / 246) - 1 / 1000000, - (79 / 123) - 1 / 1000000, 91 / 123 - 1 / 1000000]])
     = Inr (2 / 3)
   \<and> margin_based_scoring three_words three_words 4 ''ratio'' (1 / 1000000)
     = Inr (Tensor2 3 3
         [[1 / (27 / 41 + 1 / 1000000), (40 / 41) / (51 / 82 + 1 / 1000000), 0],
          [(40 / 41) / (51 / 82 + 1 / 1000000), 1 / (24 / 41 + 1 / 1000000),
           - (9 / 41) / (52 / 123 + 1 / 1000000)],
          [0, - (9 / 41) / (52 / 123 + 1 / 1000000), 1 / (32 / 123 + 1 / 1000000)]])
   \<and> layer_accuracy (Tensor2 3 3
         [[1 / (27 / 41 + 1 / 1000000), (40 / 41) / (51 / 82 + 1 / 1000000), 0],
          [(40 / 41) / (51 / 82 + 1 / 1000000), 1 / (24 / 41 + 1 / 1000000),
           - (9 / 41) / (52 / 123 + 1 / 1000000)],
          [0, - (9 / 41) / (52 / 123 + 1 / 1000000), 1 / (32 / 123 + 1 / 1000000)]])
     = Inr (2 / 3)"
proof (intro conjI)
  show "no_zero_rows three_words" by (rule three_words_no_zero_rows)
  show "distinct (rows three_words)" by (simp add: three_words_def)
  show "no_ties (cosine_matrix three_words three_words)" by (rule three_words_no_ties)
  show "margin_based_scoring three_words three_words 4 ''distance'' (1 / 1000000)
     = Inr (Tensor2 3 3
         [[14 / 41 - 1 / 1000000, 29 / 82 - 1 / 1000000, - (113 / 246) - 1 / 1000000],
          [29 / 82 - 1 / 1000000, 17 / 41 - 1 / 1000000, - (79 / 123) - 1 / 1000000],
          [- (113 / 246) - 1 / 1000000, - (79 / 123) - 1 / 1000000, 91 / 123 - 1 / 1000000]])"
    by (rule three_words_distance_score)
  show "margin_based_scoring three_words three_words 4 ''ratio'' (1 / 1000000)
     = Inr (Tensor2 3 3
         [[1 / (27 / 41 + 1 / 1000000), (40 / 41) / (51 / 82 + 1 / 1000000), 0],
          [(40 / 41) / (51 / 82 + 1 / 1000000), 1 / (24 / 41 + 1 / 1000000),
           - (9 / 41) / (52 / 123 + 1 / 1000000)],
          [0, - (9 / 41) / (52 / 123 + 1 / 1000000), 1 / (32 / 123 + 1 / 1000000)]])"
    by (rule three_words_ratio_score)
qed (simp_all add: no_ties_def layer_accuracy_def argmax_dim1_def upt_rec)

section \<open>Batched extraction of the layer representations\<close>

text \<open>The dictionary of per-layer lists and the two loops.\<close>

lemma setdefault_append_new:
  "i \<notin> fst ` set temp \<Longrightarrow> setdefault_append temp i x = temp @ [(i, [x])]"
  by (induction temp i x rule: setdefault_append.induct) auto

lemma setdefault_append_present:
  "distinct ks \<Longrightarrow> i \<in> set ks \<Longrightarrow>
   setdefault_append (map (\<lambda>j. (j, B j)) ks) i x
     = map (\<lambda>j. (j, if j = i then B j @ [x] else B j)) ks"
proof (induction ks)
  case Nil
  then show ?case by simp
next
  case (Cons k ks)
  show ?case
  proof (cases "k = i")
    case True
    then have "i \<notin> set ks" using Cons.prems(1) by simp
    then have "map (\<lambda>j. (j, if j = i then B j @ [x] else B j)) ks = map (\<lambda>j. (j, B j)) ks"
      by (intro map_cong) auto
    then show ?thesis using True by simp
  next
    case False
    then show ?thesis using Cons by simp
  qed
qed

lemma enumerate_nth_upt:
  "enumerate j xs = map (\<lambda>i. (i, xs ! (i - j))) [j..<j + length xs]"
  by (rule nth_equalityI) (simp_all add: nth_enumerate_eq)

text \<open>the inner loop on an empty dictionary: every layer gets its first entry\<close>

lemma pool_layers_first:
  assumes x: "\<And>i. i < nl \<Longrightarrow> f (hss ! i) mk = Inr (x i)" and j: "j \<le> nl"
  shows "pool_layers f mk (map (\<lambda>i. (i, [x i])) [0..<j]) (map (\<lambda>i. (i, hss ! i)) [j..<nl])
       = Inr (map (\<lambda>i. (i, [x i])) [0..<nl])"
  using j
proof (induction "nl - j" arbitrary: j)
  case 0
  then show ?case by simp
next
  case (Suc d)
  then have j: "j < nl" by simp
  have new: "j \<notin> fst ` set (map (\<lambda>i. (i, [x i])) [0..<j])" by auto
  have "[j..<nl] = j # [Suc j..<nl]" using j by (simp add: upt_rec)
  then have "pool_layers f mk (map (\<lambda>i. (i, [x i])) [0..<j]) (map (\<lambda>i. (i, hss ! i)) [j..<nl])
      = pool_layers f mk (map (\<lambda>i. (i, [x i])) [0..<Suc j]) (map (\<lambda>i. (i, hss ! i)) [Suc j..<nl])"
    using x [OF j] by (simp add: setdefault_append_new [OF new])
  also have "\<dots> = Inr (map (\<lambda>i. (i, [x i])) [0..<nl])"
    using Suc.hyps(2) j by (intro Suc.hyps(1)) simp_all
  finally show ?case .
qed

text \<open>the inner loop on a dictionary that has every layer: every layer gets one more entry\<close>

lemma pool_layers_next:
  assumes x: "\<And>i. i < nl \<Longrightarrow> f (hss ! i) mk = Inr (x i)" and j: "j \<le> nl"
  shows "pool_layers f mk (map (\<lambda>i. (i, if i < j then A i @ [x i] else A i)) [0..<nl])
           (map (\<lambda>i. (i, hss ! i)) [j..<nl])
       = Inr (map (\<lambda>i. (i, A i @ [x i])) [0..<nl])"
  using j
proof (induction "nl - j" arbitrary: j)
  case 0
  then have "j = nl" by simp
  have "map (\<lambda>i. (i, if i < nl then A i @ [x i] else A i)) [0..<nl]
      = map (\<lambda>i. (i, A i @ [x i])) [0..<nl]"
    by (intro map_cong) auto
  then show ?case using \<open>j = nl\<close> by simp
next
  case (Suc d)
  then have j: "j < nl" by simp
  have upd: "setdefault_append (map (\<lambda>i. (i, if i < j then A i @ [x i] else A i)) [0..<nl]) j (x j)
      = map (\<lambda>i. (i, if i < Suc j then A i @ [x i] else A i)) [0..<nl]"
  proof -
    have "setdefault_append (map (\<lambda>i. (i, if i < j then A i @ [x i] else A i)) [0..<nl]) j (x j)
        = map (\<lambda>i. (i, if i = j then (if i < j then A i @ [x i] else A i) @ [x j]
                         else (if i < j then A i @ [x i] else A i))) [0..<nl]"
      using j by (intro setdefault_append_present) simp_all
    also have "\<dots> = map (\<lambda>i. (i, if i < Suc j then A i @ [x i] else A i)) [0..<nl]"
      by (intro map_cong) (auto simp: less_Suc_eq)
    finally show ?thesis .
  qed
  have "[j..<nl] = j # [Suc j..<nl]" using j by (simp add: upt_rec)
  then have "pool_layers f mk (map (\<lambda>i. (i, if i < j then A i @ [x i] else A i)) [0..<nl])
           (map (\<lambda>i. (i, hss ! i)) [j..<nl])
      = pool_layers f mk (map (\<lambda>i. (i, if i < Suc j then A i @ [x i] else A i)) [0..<nl])
           (map (\<lambda>i. (i, hss ! i)) [Suc j..<nl])"
    using x [OF j] by (simp add: upd)
  also have "\<dots> = Inr (map (\<lambda>i. (i, A i @ [x i])) [0..<nl])"
    using Suc.hyps(2) j by (intro Suc.hyps(1)) simp_all
  finally show ?case .
qed

lemma pool_layers_enumerate:
  assumes x: "\<And>i. i < nl \<Longrightarrow> f (hss ! i) mk = Inr (x i)" and l: "length hss = nl"
  shows "pool_layers f mk [] (enumerate 0 hss) = Inr (map (\<lambda>i. (i, [x i])) [0..<nl])"
    and "pool_layers f mk (map (\<lambda>i. (i, A i)) [0..<nl]) (enumerate 0 hss)
           = Inr (map (\<lambda>i. (i, A i @ [x i])) [0..<nl])"
proof -
  have e: "enumerate 0 hss = map (\<lambda>i. (i, hss ! i)) [0..<nl]"
    by (simp add: enumerate_nth_upt l)
  show "pool_layers f mk [] (enumerate 0 hss) = Inr (map (\<lambda>i. (i, [x i])) [0..<nl])"
    using pool_layers_first [of nl f hss mk x 0, OF x] by (simp add: e)
  show "pool_layers f mk (map (\<lambda>i. (i, A i)) [0..<nl]) (enumerate 0 hss)
           = Inr (map (\<lambda>i. (i, A i @ [x i])) [0..<nl])"
    using pool_layers_next [of nl f hss mk x 0 A, OF x] by (simp add: e)
qed

lemma cat_all_layers:
  assumes "\<And>i. i \<in> set ks \<Longrightarrow> cat_dim0 (ts i) = Inr (c i)"
  shows "cat_all (map (\<lambda>i. (i, ts i)) ks) = Inr (map (\<lambda>i. (i, c i)) ks)"
  using assms by (induction ks) simp_all

text \<open>The batches are the consecutive slices of the sentences and cover them in order.\<close>

lemma range_step_pos:
  "0 < step \<Longrightarrow> range_step n step = Inr (map (\<lambda>q. q * nat step) [0..<(n + nat step - 1) div nat step])"
  by (simp add: range_step_def)

lemma batch_count:
  fixes b :: nat
  assumes b: "0 < b"
  shows "n \<le> (n + b - 1) div b * b"
    and "q < (n + b - 1) div b \<Longrightarrow> q * b < n"
proof -
  define Q where "Q = (n + b - 1) div b"
  have m: "(n + b - 1) mod b < b" using b by simp
  have e: "Q * b + (n + b - 1) mod b = n + b - 1" unfolding Q_def by simp
  from e m b show "n \<le> (n + b - 1) div b * b" unfolding Q_def by linarith
  assume "q < (n + b - 1) div b"
  then have "Suc q \<le> Q" unfolding Q_def by simp
  then have "Suc q * b \<le> Q * b" by (rule mult_le_mono1)
  then have "q * b + b \<le> n + b - 1" using e by simp
  then show "q * b < n" using b by linarith
qed

lemma concat_slices:
  "concat (map (\<lambda>q. slice xs (q * b) (q * b + b)) [0..<Q]) = take (Q * b) xs"
proof (induction Q)
  case 0
  then show ?case by simp
next
  case (Suc Q)
  have "take (Q * b + b) xs = take (Q * b) xs @ take b (drop (Q * b) xs)"
    by (simp add: take_add)
  then show ?case using Suc by (simp add: slice_def add.commute)
qed

lemma concat_batches:
  assumes "0 < b"
  shows "concat (map (\<lambda>q. slice xs (q * b) (q * b + b)) [0..<(length xs + b - 1) div b]) = xs"
  using batch_count(1) [OF assms, of "length xs"] by (simp add: concat_slices)

lemma slice_clamp:
  "slice xs lo (lo + b) = slice xs lo (min (lo + b) (length xs))"
  by (simp add: slice_def min_def)

lemma single_slice: "j < length xs \<Longrightarrow> slice xs j (Suc j) = [xs ! j]"
  by (simp add: slice_def take_Suc_conv_app_nth [of 0])

lemma slice_nonempty: "lo < length xs \<Longrightarrow> 0 < b \<Longrightarrow> slice xs lo (lo + b) \<noteq> []"
  by (simp add: slice_def)

lemma slice_subset: "set (slice xs lo hi) \<subseteq> set xs"
  unfolding slice_def using set_take_subset set_drop_subset by fast

lemma extraction_contractD:
  assumes c: "extraction_contract model tokenizer tok pad nl h sentences"
  shows "lo < length sentences \<Longrightarrow> 0 < b \<Longrightarrow>
           batch_contract model tokenizer tok pad nl h (slice sentences lo (lo + b))"
    and "s \<in> set sentences \<Longrightarrow> batch_contract model tokenizer tok pad nl h [s]"
proof -
  have all: "batch_contract model tokenizer tok pad nl h (slice sentences lo hi)"
    if "lo < length sentences" "lo < hi" "hi \<le> length sentences" for lo hi
  proof -
    have "lo \<in> set [0..<length sentences]" "hi \<in> set [Suc lo..<Suc (length sentences)]"
      using that by auto
    with c show ?thesis unfolding extraction_contract_def list_all_iff by blast
  qed
  show "batch_contract model tokenizer tok pad nl h (slice sentences lo (lo + b))"
    if "lo < length sentences" "0 < b"
    unfolding slice_clamp [of sentences lo b] using that by (intro all) simp_all
  show "batch_contract model tokenizer tok pad nl h [s]" if "s \<in> set sentences"
  proof -
    from that obtain j where j: "j < length sentences" "s = sentences ! j"
      by (auto simp: in_set_conv_nth)
    from all [of j "Suc j"] j show ?thesis by (simp add: single_slice)
  qed
qed

text \<open>Pooling one padded batch under the contract of the tokenizer and the model.\<close>

lemma fold_max_ge: "x \<in> set xs \<Longrightarrow> x \<le> fold max xs (a::nat)"
  using Max.set_eq_fold [of a xs] Max_ge [of "set (a # xs)" x] by simp

lemma padded_mask_row:
  fixes c l :: nat
  defines "m \<equiv> replicate c (1::int) @ replicate (l - c) 0"
  assumes c: "c \<le> l"
  shows "length m = l" "binary_row m" "count_of_ones m = c" "right_padded m"
    "unmasked_positions m = [0..<c]"
proof -
  show l: "length m = l" using c by (simp add: m_def)
  show "binary_row m" by (auto simp: m_def binary_row_def list_all_iff)
  show n: "count_of_ones m = c" by (simp add: m_def count_of_ones_def)
  show "right_padded m" unfolding right_padded_def n l by (simp add: m_def)
  have "filter (\<lambda>p. m ! p = 1) [0..<c + (l - c)] = [0..<c]"
    unfolding upt_add_eq_append [OF le0] filter_append
    by (auto simp: m_def nth_append filter_id_conv filter_empty_conv)
  then show "unmasked_positions m = [0..<c]"
    using c by (simp add: unmasked_positions_def l)
qed

lemma map_nth_upt: "map (\<lambda>r. g (xs ! r)) [0..<length xs] = map g xs"
  by (rule nth_equalityI) simp_all

lemma pad_batch_single:
  "pad_batch tok pad [s] =
     (Tensor2 1 (length (tok s)) [tok s], Tensor2 1 (length (tok s)) [replicate (length (tok s)) 1])"
  by (simp add: pad_batch_def Let_def)

lemma alone_hidden_shape:
  assumes c: "batch_contract model tokenizer tok pad nl h [s]" and i: "i < nl"
  shows "length (alone_hidden model tok i s) = length (tok s)" "tok s \<noteq> []"
proof -
  from c have t: "tokenizer [s] = pad_batch tok pad [s]" and ne: "tok s \<noteq> []"
    by (simp_all add: batch_contract_def)
  from c i have "has_shape3 (model (Tensor2 1 (length (tok s)) [tok s])
        (Tensor2 1 (length (tok s)) [replicate (length (tok s)) 1]) ! i) 1 (length (tok s)) h"
    unfolding batch_contract_def t pad_batch_single by (simp add: list_all_iff Let_def)
  from has_shape3D(5) [OF this, of 0]
  show "length (alone_hidden model tok i s) = length (tok s)" by (simp add: alone_hidden_def)
  show "tok s \<noteq> []" by (rule ne)
qed

lemma batch_pooling:
  assumes c: "batch_contract model tokenizer tok pad nl h batch"
    and single: "\<And>s. s \<in> set batch \<Longrightarrow> batch_contract model tokenizer tok pad nl h [s]"
  shows "\<exists>input_ids attention_mask.
      tokenizer batch = (input_ids, attention_mask) \<and>
      length (model input_ids attention_mask) = nl \<and>
      (\<forall>i<nl. mean_hidden_state (model input_ids attention_mask ! i) attention_mask =
          Inr (Tensor2 (length batch) h
                (map (\<lambda>s. vec_average h (alone_hidden model tok i s)) batch))) \<and>
      (\<forall>i<nl. last_token_hidden_state (model input_ids attention_mask ! i) attention_mask =
          Inr (Tensor2 (length batch) h
                (map (\<lambda>s. last (alone_hidden model tok i s)) batch)))"
proof -
  define b where "b = length batch"
  define l where "l = fold max (map (\<lambda>s. length (tok s)) batch) 0"
  define ids where
    "ids = Tensor2 b l (map (\<lambda>s. tok s @ replicate (l - length (tok s)) pad) batch)"
  define mk where
    "mk = Tensor2 b l
       (map (\<lambda>s. replicate (length (tok s)) (1::int) @ replicate (l - length (tok s)) 0) batch)"
  define hss where "hss = model ids mk"
  have t: "tokenizer batch = (ids, mk)"
    using c by (simp add: batch_contract_def pad_batch_def Let_def ids_def mk_def b_def l_def)
  have nl: "length hss = nl"
    using c unfolding batch_contract_def t by (simp add: hss_def Let_def)
  have sh: "has_shape3 (hss ! i) b l h" if "i < nl" for i
    using c that unfolding batch_contract_def t
    by (simp add: hss_def Let_def list_all_iff b_def mk_def)
  have val: "seqs (hss ! i) ! r ! p = alone_hidden model tok i (batch ! r) ! p"
    if "i < nl" "r < b" "p < length (tok (batch ! r))" for i r p
    using c that unfolding batch_contract_def t
    by (simp add: hss_def Let_def list_all_iff b_def)
  have le: "length (tok (batch ! r)) \<le> l" if "r < b" for r
    unfolding l_def using that by (intro fold_max_ge) (simp add: b_def)
  have row: "rows mk ! r = replicate (length (tok (batch ! r))) 1
      @ replicate (l - length (tok (batch ! r))) 0" if "r < b" for r
    using that by (simp add: mk_def b_def)
  have R: "length (rows mk ! r) = l" "binary_row (rows mk ! r)"
    "count_of_ones (rows mk ! r) = length (tok (batch ! r))" "right_padded (rows mk ! r)"
    "unmasked_positions (rows mk ! r) = [0..<length (tok (batch ! r))]" if "r < b" for r
    unfolding row [OF that] by (rule padded_mask_row [OF le [OF that]])+
  have msh: "has_shape2 mk b l"
    using R(1) by (simp add: has_shape2_def wf2_def list_all_length mk_def b_def)
  have bin: "list_all binary_row (rows mk)"
    using R(2) by (simp add: list_all_length mk_def b_def)
  have al: "length (alone_hidden model tok i (batch ! r)) = length (tok (batch ! r))"
    "tok (batch ! r) \<noteq> []" if "i < nl" "r < b" for i r
    using alone_hidden_shape [OF single that(1), of "batch ! r"] that(2) by (simp_all add: b_def)
  have ok: "list_all (\<lambda>m. right_padded m \<and> 1 \<le> count_of_ones m) (rows mk)" if "i < nl" for i
  proof -
    have "right_padded (rows mk ! r) \<and> 1 \<le> count_of_ones (rows mk ! r)" if r: "r < b" for r
      using R(3,4) [OF r] al(2) [OF \<open>i < nl\<close> r] by (simp add: Suc_le_eq)
    then show ?thesis by (simp add: list_all_length mk_def b_def)
  qed
  have mean: "mean_hidden_state (hss ! i) mk =
      Inr (Tensor2 b h (map (\<lambda>s. vec_average h (alone_hidden model tok i s)) batch))"
    if i: "i < nl" for i
  proof -
    have "spec_mean_pool h (seqs (hss ! i) ! r) (rows mk ! r)
        = vec_average h (alone_hidden model tok i (batch ! r))" if r: "r < b" for r
    proof -
      have "map (\<lambda>p. seqs (hss ! i) ! r ! p) [0..<length (tok (batch ! r))]
          = map (\<lambda>p. alone_hidden model tok i (batch ! r) ! p) [0..<length (tok (batch ! r))]"
        by (rule map_cong [OF refl]) (simp add: val [OF i r])
      also have "\<dots> = alone_hidden model tok i (batch ! r)"
        using map_nth [of "alone_hidden model tok i (batch ! r)"] al(1) [OF i r] by simp
      finally show ?thesis by (simp add: spec_mean_pool_def R(5) [OF r])
    qed
    then have "map (\<lambda>r. spec_mean_pool h (seqs (hss ! i) ! r) (rows mk ! r)) [0..<b]
        = map (\<lambda>r. vec_average h (alone_hidden model tok i (batch ! r))) [0..<b]"
      by (intro map_cong [OF refl]) simp
    also have "\<dots> = map (\<lambda>s. vec_average h (alone_hidden model tok i s)) batch"
      unfolding b_def by (rule map_nth_upt)
    finally show ?thesis
      using mean_hidden_state_rows [OF sh [OF i] msh bin] by simp
  qed
  have last: "last_token_hidden_state (hss ! i) mk =
      Inr (Tensor2 b h (map (\<lambda>s. last (alone_hidden model tok i s)) batch))"
    if i: "i < nl" for i
  proof -
    have "seqs (hss ! i) ! r ! (count_of_ones (rows mk ! r) - 1)
        = last (alone_hidden model tok i (batch ! r))" if r: "r < b" for r
    proof -
      have ne: "alone_hidden model tok i (batch ! r) \<noteq> []"
        using al [OF i r] by auto
      have "seqs (hss ! i) ! r ! (length (tok (batch ! r)) - 1)
          = alone_hidden model tok i (batch ! r) ! (length (tok (batch ! r)) - 1)"
        using al(2) [OF i r] by (intro val [OF i r]) simp
      then show ?thesis
        using al(1) [OF i r] by (simp add: R(3) [OF r] last_conv_nth [OF ne])
    qed
    then have "map (\<lambda>r. seqs (hss ! i) ! r ! (count_of_ones (rows mk ! r) - 1)) [0..<b]
        = map (\<lambda>r. last (alone_hidden model tok i (batch ! r))) [0..<b]"
      by (intro map_cong [OF refl]) simp
    also have "\<dots> = map (\<lambda>s. last (alone_hidden model tok i s)) batch"
      unfolding b_def by (rule map_nth_upt)
    finally show ?thesis
      using last_token_hidden_state_rows [OF sh [OF i] msh ok [OF i]] by simp
  qed
  from t nl mean last show ?thesis unfolding hss_def b_def by blast
qed

text \<open>The outer loop and the final concatenation.\<close>

lemma batch_loop_result:
  fixes X :: "nat \<Rightarrow> nat \<Rightarrow> real tensor2" and nl :: nat
  defines "T \<equiv> \<lambda>Q. if Q = 0 then [] else map (\<lambda>i. (i, map (\<lambda>q. X q i) [0..<Q])) [0..<nl]"
  assumes step: "\<And>q. q < Q \<Longrightarrow>
      \<exists>input_ids attention_mask.
        tokenizer (slice sentences (q * nat batch_size) (q * nat batch_size + nat batch_size))
          = (input_ids, attention_mask) \<and>
        length (model input_ids attention_mask) = nl \<and>
        (\<forall>i<nl. f (model input_ids attention_mask ! i) attention_mask = Inr (X q i))"
    and q0: "Q0 \<le> Q"
  shows "batch_loop model tokenizer sentences batch_size f (T Q0)
           (map (\<lambda>q. q * nat batch_size) [Q0..<Q]) = Inr (T Q)"
  using q0
proof (induction "Q - Q0" arbitrary: Q0)
  case 0
  then show ?case by simp
next
  case (Suc d)
  then have q: "Q0 < Q" by simp
  from step [OF q] obtain input_ids attention_mask where
    t: "tokenizer (slice sentences (Q0 * nat batch_size) (Q0 * nat batch_size + nat batch_size))
          = (input_ids, attention_mask)"
    and l: "length (model input_ids attention_mask) = nl"
    and x: "\<And>i. i < nl \<Longrightarrow> f (model input_ids attention_mask ! i) attention_mask = Inr (X Q0 i)"
    by blast
  have p: "pool_layers f attention_mask (T Q0) (enumerate 0 (model input_ids attention_mask))
      = Inr (T (Suc Q0))"
  proof (cases "Q0 = 0")
    case True
    then show ?thesis
      using pool_layers_enumerate(1) [of nl f "model input_ids attention_mask" attention_mask
          "X Q0", OF x l]
      by (simp add: T_def)
  next
    case False
    then show ?thesis
      using pool_layers_enumerate(2) [of nl f "model input_ids attention_mask" attention_mask
          "X Q0" "\<lambda>i. map (\<lambda>q. X q i) [0..<Q0]", OF x l]
      by (simp add: T_def)
  qed
  have "[Q0..<Q] = Q0 # [Suc Q0..<Q]" using q by (simp add: upt_rec)
  then have "batch_loop model tokenizer sentences batch_size f (T Q0)
           (map (\<lambda>q. q * nat batch_size) [Q0..<Q])
      = batch_loop model tokenizer sentences batch_size f (T (Suc Q0))
           (map (\<lambda>q. q * nat batch_size) [Suc Q0..<Q])"
    by (simp add: t p)
  also have "\<dots> = Inr (T Q)"
    using Suc.hyps(2) q by (intro Suc.hyps(1)) simp_all
  finally show ?case .
qed

lemma cat_dim0_batches:
  assumes "qs \<noteq> []"
  shows "cat_dim0 (map (\<lambda>q. Tensor2 (length (B q)) h (map g (B q))) qs)
       = Inr (Tensor2 (length (concat (map B qs))) h (map g (concat (map B qs))))"
proof -
  have "sum_list (map (\<lambda>q. length (B q)) qs) = length (concat (map B qs))"
    by (simp add: length_concat comp_def)
  moreover have "concat (map (\<lambda>q. map g (B q)) qs) = map g (concat (map B qs))"
    by (simp add: map_concat comp_def)
  moreover have "size1 (hd (map (\<lambda>q. Tensor2 (length (B q)) h (map g (B q))) qs)) = h"
    using assms by (cases qs) simp_all
  ultimately show ?thesis
    using assms by (simp add: cat_dim0_def list_all_iff comp_def)
qed

lemma layer_representation_generic:
  assumes bs: "0 < batch_size"
    and batches: "\<And>lo. lo < length sentences \<Longrightarrow>
      \<exists>input_ids attention_mask.
        tokenizer (slice sentences lo (lo + nat batch_size)) = (input_ids, attention_mask) \<and>
        length (model input_ids attention_mask) = nl \<and>
        (\<forall>i<nl. f (model input_ids attention_mask ! i) attention_mask =
            Inr (Tensor2 (length (slice sentences lo (lo + nat batch_size))) h
                  (map (g i) (slice sentences lo (lo + nat batch_size)))))"
  shows "layer_representation model tokenizer sentences batch_size f =
     Inr (if sentences = [] then []
          else map (\<lambda>i. (i, Tensor2 (length sentences) h (map (g i) sentences))) [0..<nl])"
proof -
  define b where "b = nat batch_size"
  define n where "n = length sentences"
  define Q where "Q = (n + b - 1) div b"
  define B where "B q = slice sentences (q * b) (q * b + b)" for q
  define X where "X q i = Tensor2 (length (B q)) h (map (g i) (B q))" for q i
  have b: "0 < b" using bs by (simp add: b_def)
  have starts: "range_step n batch_size = Inr (map (\<lambda>q. q * b) [0..<Q])"
    using bs by (simp add: range_step_pos b_def Q_def)
  have step: "\<exists>input_ids attention_mask.
        tokenizer (slice sentences (q * nat batch_size) (q * nat batch_size + nat batch_size))
          = (input_ids, attention_mask) \<and>
        length (model input_ids attention_mask) = nl \<and>
        (\<forall>i<nl. f (model input_ids attention_mask ! i) attention_mask = Inr (X q i))"
    if "q < Q" for q
    using batches [of "q * b"] batch_count(2) [OF b, of q n] that
    by (simp add: Q_def n_def X_def B_def b_def)
  have loop: "batch_loop model tokenizer sentences batch_size f []
      (map (\<lambda>q. q * nat batch_size) [0..<Q])
      = Inr (if Q = 0 then [] else map (\<lambda>i. (i, map (\<lambda>q. X q i) [0..<Q])) [0..<nl])"
    using batch_loop_result [of Q tokenizer sentences batch_size model nl f X 0, OF step]
    by simp
  have all: "concat (map B [0..<Q]) = sentences"
    unfolding B_def Q_def n_def by (rule concat_batches [OF b])
  show ?thesis
  proof (cases "sentences = []")
    case True
    then have "Q = 0" using b by (simp add: Q_def n_def)
    then show ?thesis
      using True starts loop by (simp add: layer_representation_def n_def b_def)
  next
    case False
    have "Q \<noteq> 0"
    proof
      assume "Q = 0"
      with all have "sentences = []" by simp
      with False show False by simp
    qed
    then have qs: "[0..<Q] \<noteq> []" by simp
    have cat: "cat_dim0 (map (\<lambda>q. X q i) [0..<Q])
        = Inr (Tensor2 (length sentences) h (map (g i) sentences))" for i
      using cat_dim0_batches [OF qs, of B h "g i"] by (simp add: X_def all)
    have "cat_all (map (\<lambda>i. (i, map (\<lambda>q. X q i) [0..<Q])) [0..<nl])
        = Inr (map (\<lambda>i. (i, Tensor2 (length sentences) h (map (g i) sentences))) [0..<nl])"
      by (rule cat_all_layers) (rule cat)
    then show ?thesis
      using False \<open>Q \<noteq> 0\<close> starts loop
      by (simp add: layer_representation_def n_def b_def)
  qed
qed

text \<open>The small tokenizer and model satisfy the contract on three sentences.\<close>

lemma toy_tok:
  "char_tok ''ab'' = [97, 98]" "char_tok ''c'' = [99]" "char_tok ''def'' = [100, 101, 102]"
  by (simp_all add: char_tok_def)

lemma toy_pad:
  "pad_batch char_tok 0 [''ab''] = (Tensor2 1 2 [[97, 98]], Tensor2 1 2 [[1, 1]])"
  "pad_batch char_tok 0 [''c''] = (Tensor2 1 1 [[99]], Tensor2 1 1 [[1]])"
  "pad_batch char_tok 0 [''def''] = (Tensor2 1 3 [[100, 101, 102]], Tensor2 1 3 [[1, 1, 1]])"
  "pad_batch char_tok 0 [''ab'', ''c''] = (Tensor2 2 2 [[97, 98], [99, 0]], Tensor2 2 2 [[1, 1], [1, 0]])"
  "pad_batch char_tok 0 [''c'', ''def'']
     = (Tensor2 2 3 [[99, 0, 0], [100, 101, 102]], Tensor2 2 3 [[1, 0, 0], [1, 1, 1]])"
  "pad_batch char_tok 0 [''ab'', ''c'', ''def'']
     = (Tensor2 3 3 [[97, 98, 0], [99, 0, 0], [100, 101, 102]],
        Tensor2 3 3 [[1, 1, 0], [1, 0, 0], [1, 1, 1]])"
  by (simp_all add: pad_batch_def toy_tok Let_def numeral_eq_Suc)


lemma toy_alone:
  "alone_hidden toy_model char_tok 0 ''ab'' = [[97], [98]]"
  "alone_hidden toy_model char_tok (Suc 0) ''ab'' = [[97], [195]]"
  "alone_hidden toy_model char_tok 0 ''c'' = [[99]]"
  "alone_hidden toy_model char_tok (Suc 0) ''c'' = [[99]]"
  "alone_hidden toy_model char_tok 0 ''def'' = [[100], [101], [102]]"
  "alone_hidden toy_model char_tok (Suc 0) ''def'' = [[100], [201], [303]]"
  by (simp_all add: alone_hidden_def toy_model_def toy_tok upt_rec)

lemma toy_hidden:
  "toy_model (Tensor2 1 2 [[97, 98]]) mk
     = [Tensor3 1 2 1 [[[97], [98]]], Tensor3 1 2 1 [[[97], [195]]]]"
  "toy_model (Tensor2 1 1 [[99]]) mk = [Tensor3 1 1 1 [[[99]]], Tensor3 1 1 1 [[[99]]]]"
  "toy_model (Tensor2 1 3 [[100, 101, 102]]) mk
     = [Tensor3 1 3 1 [[[100], [101], [102]]], Tensor3 1 3 1 [[[100], [201], [303]]]]"
  "toy_model (Tensor2 2 2 [[97, 98], [99, 0]]) mk
     = [Tensor3 2 2 1 [[[97], [98]], [[99], [0]]], Tensor3 2 2 1 [[[97], [195]], [[99], [99]]]]"
  "toy_model (Tensor2 2 3 [[99, 0, 0], [100, 101, 102]]) mk
     = [Tensor3 2 3 1 [[[99], [0], [0]], [[100], [101], [102]]],
        Tensor3 2 3 1 [[[99], [99], [99]], [[100], [201], [303]]]]"
  "toy_model (Tensor2 3 3 [[97, 98, 0], [99, 0, 0], [100, 101, 102]]) mk
     = [Tensor3 3 3 1 [[[97], [98], [0]], [[99], [0], [0]], [[100], [101], [102]]],
        Tensor3 3 3 1 [[[97], [195], [195]], [[99], [99], [99]], [[100], [201], [303]]]]"
  by (simp_all add: toy_model_def upt_rec)


lemma toy_batches:
  "batch_contract toy_model (pad_batch char_tok 0) char_tok 0 2 1 [''ab'']"
  "batch_contract toy_model (pad_batch char_tok 0) char_tok 0 2 1 [''c'']"
  "batch_contract toy_model (pad_batch char_tok 0) char_tok 0 2 1 [''def'']"
  "batch_contract toy_model (pad_batch char_tok 0) char_tok 0 2 1 [''ab'', ''c'']"
  "batch_contract toy_model (pad_batch char_tok 0) char_tok 0 2 1 [''c'', ''def'']"
  "batch_contract toy_model (pad_batch char_tok 0) char_tok 0 2 1 [''ab'', ''c'', ''def'']"
  by (simp_all add: batch_contract_def toy_pad toy_hidden toy_alone toy_tok has_shape3_def
      wf3_def upt_rec Let_def del: One_nat_def)

lemma toy_contract:
  "extraction_contract toy_model (pad_batch char_tok 0) char_tok 0 2 1 [''ab'', ''c'', ''def'']"
  by (simp add: extraction_contract_def slice_def toy_batches upt_rec del: One_nat_def)

text \<open>
  Claim C3. Let the tokenizer pad each batch on the right to its longest sentence, every
  sentence having at least one token, and let the model return \<open>nl\<close> layers whose hidden
  vectors at the unmasked positions of a sentence are those of the sentence processed
  alone (\<open>extraction_contract\<close>, for the runs of consecutive sentences). Then for every
  list of sentences and every positive batch size \<^verbatim>\<open>layer_representation\<close> returns,
  for every layer \<open>i\<close>, the matrix whose row \<open>j\<close> is the pooled vector of sentence \<open>j\<close>
  processed alone: the mean of its hidden vectors for \<^verbatim>\<open>mean_hidden_state\<close>, the last
  of them for \<^verbatim>\<open>last_token_hidden_state\<close>. The result does not mention the batch size,
  so any two positive batch sizes give the same matrices; the partition into batches and
  the padding of each batch do not affect the pooled outputs. Entries are real numbers,
  so the equality is exact.
\<close>

theorem layer_representation_independent_of_batch_size:
  assumes c: "extraction_contract model tokenizer tok pad nl h sentences"
    and bs: "0 < batch_size"
  shows "layer_representation model tokenizer sentences batch_size mean_hidden_state =
           Inr (if sentences = [] then []
                else map (\<lambda>i. (i, Tensor2 (length sentences) h
                       (map (\<lambda>s. vec_average h (alone_hidden model tok i s)) sentences)))
                     [0..<nl])
       \<and> layer_representation model tokenizer sentences batch_size last_token_hidden_state =
           Inr (if sentences = [] then []
                else map (\<lambda>i. (i, Tensor2 (length sentences) h
                       (map (\<lambda>s. last (alone_hidden model tok i s)) sentences)))
                     [0..<nl])
       \<and> (0 < batch_size' \<longrightarrow>
            layer_representation model tokenizer sentences batch_size' mean_hidden_state =
              layer_representation model tokenizer sentences batch_size mean_hidden_state \<and>
            layer_representation model tokenizer sentences batch_size' last_token_hidden_state =
              layer_representation model tokenizer sentences batch_size last_token_hidden_state)"
proof -
  have pooled: "\<exists>input_ids attention_mask.
      tokenizer (slice sentences lo (lo + nat k)) = (input_ids, attention_mask) \<and>
      length (model input_ids attention_mask) = nl \<and>
      (\<forall>i<nl. mean_hidden_state (model input_ids attention_mask ! i) attention_mask =
          Inr (Tensor2 (length (slice sentences lo (lo + nat k))) h
                (map (\<lambda>s. vec_average h (alone_hidden model tok i s))
                   (slice sentences lo (lo + nat k))))) \<and>
      (\<forall>i<nl. last_token_hidden_state (model input_ids attention_mask ! i) attention_mask =
          Inr (Tensor2 (length (slice sentences lo (lo + nat k))) h
                (map (\<lambda>s. last (alone_hidden model tok i s))
                   (slice sentences lo (lo + nat k)))))"
    if "lo < length sentences" "0 < k" for lo and k :: int
  proof (rule batch_pooling)
    show "batch_contract model tokenizer tok pad nl h (slice sentences lo (lo + nat k))"
      using that by (intro extraction_contractD(1) [OF c]) simp_all
    show "batch_contract model tokenizer tok pad nl h [s]"
      if "s \<in> set (slice sentences lo (lo + nat k))" for s
      using that slice_subset [of sentences lo "lo + nat k"]
      by (intro extraction_contractD(2) [OF c]) blast
  qed
  have mean: "layer_representation model tokenizer sentences k mean_hidden_state =
           Inr (if sentences = [] then []
                else map (\<lambda>i. (i, Tensor2 (length sentences) h
                       (map (\<lambda>s. vec_average h (alone_hidden model tok i s)) sentences)))
                     [0..<nl])" if k: "0 < k" for k
    by (rule layer_representation_generic [OF k]) (use pooled [OF _ k] in blast)
  have last: "layer_representation model tokenizer sentences k last_token_hidden_state =
           Inr (if sentences = [] then []
                else map (\<lambda>i. (i, Tensor2 (length sentences) h
                       (map (\<lambda>s. last (alone_hidden model tok i s)) sentences)))
                     [0..<nl])" if k: "0 < k" for k
    by (rule layer_representation_generic [OF k]) (use pooled [OF _ k] in blast)
  show ?thesis
    using mean [OF bs] last [OF bs] mean [of batch_size'] last [of batch_size'] by simp
qed

theorem layer_representation_independent_of_batch_size_witness:
  "layer_representation toy_model (pad_batch char_tok 0) [''ab'', ''c'', ''def''] 2 mean_hidden_state
     = Inr [(0, Tensor2 3 1 [[195 / 2], [99], [101]]), (1, Tensor2 3 1 [[146], [99], [604 / 3]])]
   \<and> layer_representation toy_model (pad_batch char_tok 0) [''ab'', ''c'', ''def''] 3 mean_hidden_state
     = Inr [(0, Tensor2 3 1 [[195 / 2], [99], [101]]), (1, Tensor2 3 1 [[146], [99], [604 / 3]])]
   \<and> layer_representation toy_model (pad_batch char_tok 0) [''ab'', ''c'', ''def''] 2
       last_token_hidden_state
     = Inr [(0, Tensor2 3 1 [[98], [99], [102]]), (1, Tensor2 3 1 [[195], [99], [303]])]
   \<and> layer_representation toy_model (pad_batch char_tok 0) [''ab'', ''c'', ''def''] 3
       last_token_hidden_state
     = Inr [(0, Tensor2 3 1 [[98], [99], [102]]), (1, Tensor2 3 1 [[195], [99], [303]])]"
proof -
  have bs: "(0::int) < 2" by simp
  show ?thesis
    using layer_representation_independent_of_batch_size [OF toy_contract bs, of 3]
    by (simp add: toy_alone vec_average_def upt_rec)
qed

end
